theory Spec2Isabelle
  imports Complex_Main
begin

section \<open>Anomaly detection engine (datadog-integration/anomaly-detector)\<close>

subsection \<open>Strings and characters\<close>

text \<open>
  JavaScript strings are modelled as \<open>string\<close> (ASCII text; one \<open>char\<close> per UTF-16 code
  unit).  JavaScript numbers are modelled as exact rationals: \<open>NaN\<close>, the infinities and
  binary rounding are outside the model.  An \<open>undefined\<close> field is \<open>None\<close>.
\<close>

definition code :: "char \<Rightarrow> nat" where
  "code c = of_char c"

definition isDigit :: "char \<Rightarrow> bool" where
  "isDigit c = (48 \<le> code c \<and> code c \<le> 57)"

definition isUpper :: "char \<Rightarrow> bool" where
  "isUpper c = (65 \<le> code c \<and> code c \<le> 90)"

definition isLower :: "char \<Rightarrow> bool" where
  "isLower c = (97 \<le> code c \<and> code c \<le> 122)"

definition isAlnum :: "char \<Rightarrow> bool" where
  "isAlnum c = (isUpper c \<or> isLower c \<or> isDigit c)"

text \<open>The class \<^verbatim>\<open>\w\<close> that decides a word boundary \<^verbatim>\<open>\b\<close>.\<close>

definition isWordChar :: "char \<Rightarrow> bool" where
  "isWordChar c = (isAlnum c \<or> c = CHR ''_'')"

text \<open>The class \<^verbatim>\<open>\s\<close> on ASCII: space, tab, line feed, vertical tab, form feed, carriage return.\<close>

definition isSpace :: "char \<Rightarrow> bool" where
  "isSpace c = (code c = 32 \<or> (9 \<le> code c \<and> code c \<le> 13))"

definition toLowerChar :: "char \<Rightarrow> char" where
  "toLowerChar c = (if isUpper c then char_of (code c + 32) else c)"

definition toLowerCase :: "string \<Rightarrow> string" where
  "toLowerCase s = map toLowerChar s"

text \<open>\<^verbatim>\<open>String.prototype.includes\<close>: \<open>t\<close> occurs in \<open>s\<close> as a contiguous substring.\<close>

fun includes_str :: "string \<Rightarrow> string \<Rightarrow> bool" where
  "includes_str [] t = (t = [])"
| "includes_str (c # cs) t = (take (length t) (c # cs) = t \<or> includes_str cs t)"

subsection \<open>Regular expressions\<close>

text \<open>
  A pattern is embedded as a backtracking matcher: given the character before the current
  position (for \<^verbatim>\<open>\b\<close>) and the rest of the input, it returns the lengths it can consume,
  in the order in which the JavaScript engine tries them.  The first element is the match
  the engine reports.
\<close>

type_synonym rx = "char option \<Rightarrow> string \<Rightarrow> nat list"

definition prevAfter :: "char option \<Rightarrow> string \<Rightarrow> nat \<Rightarrow> char option" where
  "prevAfter p s n = (case rev (take n s) of [] \<Rightarrow> p | c # _ \<Rightarrow> Some c)"

definition eps :: rx where
  "eps p s = [0]"

definition chr :: "(char \<Rightarrow> bool) \<Rightarrow> rx" where
  "chr f p s = (case s of [] \<Rightarrow> [] | c # _ \<Rightarrow> if f c then [1] else [])"

text \<open>
  Concatenation: for every length \<open>n\<close> the first part can consume, in order, the lengths the
  second part can consume after it.
\<close>

fun seqCont :: "rx \<Rightarrow> char option \<Rightarrow> string \<Rightarrow> nat list \<Rightarrow> nat list" where
  "seqCont b p s [] = []"
| "seqCont b p s (n # ns) = map (\<lambda>m. n + m) (b (prevAfter p s n) (drop n s)) @ seqCont b p s ns"

definition seq :: "rx \<Rightarrow> rx \<Rightarrow> rx" where
  "seq a b p s = seqCont b p s (a p s)"

definition alt :: "rx \<Rightarrow> rx \<Rightarrow> rx" where
  "alt a b p s = a p s @ b p s"

text \<open>Greedy \<^verbatim>\<open>?\<close>: one occurrence is tried before none.\<close>

definition opt :: "rx \<Rightarrow> rx" where
  "opt a = alt a eps"

primrec seqs :: "rx list \<Rightarrow> rx" where
  "seqs [] = eps"
| "seqs (r # rs) = seq r (seqs rs)"

definition repeat_rx :: "nat \<Rightarrow> rx \<Rightarrow> rx" where
  "repeat_rx n a = seqs (replicate n a)"

text \<open>
  Greedy \<^verbatim>\<open>*\<close>: another iteration is tried before stopping; an iteration that consumes
  nothing is rejected, as ECMAScript's RepeatMatcher does.  At most \<open>length s\<close> non-empty
  iterations fit into \<open>s\<close>.
\<close>

fun starN :: "nat \<Rightarrow> rx \<Rightarrow> rx"
  and starCont :: "nat \<Rightarrow> rx \<Rightarrow> char option \<Rightarrow> string \<Rightarrow> nat list \<Rightarrow> nat list" where
  "starN 0 a p s = [0]"
| "starN (Suc k) a p s = starCont k a p s (a p s) @ [0]"
| "starCont k a p s [] = []"
| "starCont k a p s (n # ns) =
     (if n = 0 then [] else map (\<lambda>m. n + m) (starN k a (prevAfter p s n) (drop n s)))
       @ starCont k a p s ns"

definition star :: "rx \<Rightarrow> rx" where
  "star a p s = starN (length s) a p s"

definition plus_rx :: "rx \<Rightarrow> rx" where
  "plus_rx a = seq a (star a)"

text \<open>\<^verbatim>\<open>{n,}\<close>\<close>

definition atLeast_rx :: "nat \<Rightarrow> rx \<Rightarrow> rx" where
  "atLeast_rx n a = seq (repeat_rx n a) (star a)"

text \<open>\<^verbatim>\<open>\b\<close>: exactly one of the two neighbouring characters is a word character.\<close>

definition wordb :: rx where
  "wordb p s =
     (let a = (case p of None \<Rightarrow> False | Some c \<Rightarrow> isWordChar c);
          b = (case s of [] \<Rightarrow> False | c # _ \<Rightarrow> isWordChar c)
      in if a \<noteq> b then [0] else [])"

text \<open>Negative lookahead \<^verbatim>\<open>(?!...)\<close>.\<close>

definition neglook :: "rx \<Rightarrow> rx" where
  "neglook a p s = (if a p s = [] then [0] else [])"

definition lit :: "string \<Rightarrow> rx" where
  "lit w = seqs (map (\<lambda>x. chr ((=) x)) w)"

text \<open>A literal under the \<^verbatim>\<open>i\<close> flag.\<close>

definition eqIgnoreCase :: "char \<Rightarrow> char \<Rightarrow> bool" where
  "eqIgnoreCase x c = (toLowerChar c = toLowerChar x)"

definition liti :: "string \<Rightarrow> rx" where
  "liti w = seqs (map (\<lambda>x. chr (eqIgnoreCase x)) w)"

text \<open>
  The leftmost match in the rest of the input: \<open>scan r p s\<close> returns the number of
  characters skipped before the match starts and the length of the match, or \<open>None\<close>.
\<close>

fun scan :: "rx \<Rightarrow> char option \<Rightarrow> string \<Rightarrow> (nat \<times> nat) option" where
  "scan r p [] = (case r p [] of [] \<Rightarrow> None | n # _ \<Rightarrow> Some (0, n))"
| "scan r p (c # cs) =
     (case r p (c # cs) of
        [] \<Rightarrow> (case scan r (Some c) cs of None \<Rightarrow> None | Some (k, n) \<Rightarrow> Some (Suc k, n))
      | n # _ \<Rightarrow> Some (0, n))"

text \<open>
  RegExpBuiltinExec for a regular expression with the \<^verbatim>\<open>g\<close> flag, whose \<open>lastIndex\<close> is
  \<open>li\<close>: the match (start index and length) and the new \<open>lastIndex\<close>.  A failed search
  resets \<open>lastIndex\<close> to 0; a successful one sets it to the end of the match.
\<close>

definition regExpExec :: "rx \<Rightarrow> string \<Rightarrow> nat \<Rightarrow> (nat \<times> nat) option \<times> nat" where
  "regExpExec r s li =
     (if length s < li then (None, 0)
      else case scan r (prevAfter None s li) (drop li s) of
             None \<Rightarrow> (None, 0)
           | Some (k, n) \<Rightarrow> (Some (li + k, n), li + k + n))"

text \<open>\<^verbatim>\<open>RegExp.prototype.test\<close> for a global regular expression.\<close>

definition test_g :: "rx \<Rightarrow> string \<Rightarrow> nat \<Rightarrow> bool \<times> nat" where
  "test_g r s li = (case regExpExec r s li of (m, li') \<Rightarrow> (m \<noteq> None, li'))"

text \<open>\<^verbatim>\<open>RegExp.prototype.test\<close> for a regular expression without \<^verbatim>\<open>g\<close>: always from index 0.\<close>

definition test_rx :: "rx \<Rightarrow> string \<Rightarrow> bool" where
  "test_rx r s = (scan r None s \<noteq> None)"

text \<open>
  The loop of \<^verbatim>\<open>String.prototype.match\<close> for a global regular expression: it counts the
  matches from \<open>lastIndex = li\<close> on, stepping over an empty match, and returns the count
  with the final \<open>lastIndex\<close>.
\<close>

function matchLoop :: "rx \<Rightarrow> string \<Rightarrow> nat \<Rightarrow> nat \<Rightarrow> nat \<times> nat" where
  "matchLoop r s li n =
     (case regExpExec r s li of
        (None, li') \<Rightarrow> (n, li')
      | (Some (b, k), li') \<Rightarrow> matchLoop r s (if k = 0 then li' + 1 else li') (Suc n))"
  by pat_completeness auto

termination matchLoop
  by (relation "measure (\<lambda>(r, s, li, n). Suc (length s) - li)")
     (auto simp: regExpExec_def split: if_splits option.splits)

declare matchLoop.simps [simp del]

subsection \<open>Rule constants\<close>

datatype pii_kind = EMAIL | PHONE | SSN | CREDIT_CARD | API_KEY

definition digit :: rx where
  "digit = chr isDigit"

text \<open>\<^verbatim>\<open>[-.\s]\<close>\<close>

definition sepChar :: "char \<Rightarrow> bool" where
  "sepChar c = (c = CHR ''-'' \<or> c = CHR ''.'' \<or> isSpace c)"

text \<open>\<^verbatim>\<open>[A-Za-z0-9._%+-]\<close>\<close>

definition emailLocalChar :: "char \<Rightarrow> bool" where
  "emailLocalChar c = (isAlnum c \<or> c \<in> set ''._%+-'')"

text \<open>\<^verbatim>\<open>[A-Za-z0-9.-]\<close>\<close>

definition emailDomainChar :: "char \<Rightarrow> bool" where
  "emailDomainChar c = (isAlnum c \<or> c = CHR ''.'' \<or> c = CHR ''-'')"

text \<open>\<^verbatim>\<open>[A-Z|a-z]\<close>: the bar is a member of the class.\<close>

definition tldChar :: "char \<Rightarrow> bool" where
  "tldChar c = (isUpper c \<or> c = CHR ''|'' \<or> isLower c)"

text \<open>\<^verbatim>\<open>[-\s]\<close>\<close>

definition dashOrSpace :: "char \<Rightarrow> bool" where
  "dashOrSpace c = (c = CHR ''-'' \<or> isSpace c)"

text \<open>\<^verbatim>\<open>[_-]\<close>\<close>

definition underscoreOrDash :: "char \<Rightarrow> bool" where
  "underscoreOrDash c = (c = CHR ''_'' \<or> c = CHR ''-'')"

text \<open>\<^verbatim>\<open>[a-z0-9]\<close> under the \<^verbatim>\<open>i\<close> flag.\<close>

definition lowerOrDigitIgnoreCase :: "char \<Rightarrow> bool" where
  "lowerOrDigitIgnoreCase c = (isLower (toLowerChar c) \<or> isDigit c)"

text \<open>
  \<^verbatim>\<open>EMAIL: /\b[A-Za-z0-9._%+-]+@[A-Za-z0-9.-]+\.[A-Z|a-z]{2,}\b/g\<close>

  \<^verbatim>\<open>PHONE: /(?:\+1[-.\s]?)?\(?[0-9]{3}\)?[-.\s]?[0-9]{3}[-.\s]?[0-9]{4}/g\<close>

  \<^verbatim>\<open>SSN: /\b(?!000|666|9\d{2})\d{3}-(?!00)\d{2}-(?!0{4})\d{4}\b/g\<close>

  \<^verbatim>\<open>CREDIT_CARD: /\b(?:\d{4}[-\s]?){3}\d{4}\b/g\<close>

  \<^verbatim>\<open>API_KEY: /(?:api[_-]?key|sk_[a-z0-9]{20,})/gi\<close>
\<close>

fun PII_PATTERNS :: "pii_kind \<Rightarrow> rx" where
  "PII_PATTERNS EMAIL =
     seqs [wordb, plus_rx (chr emailLocalChar), lit ''@'', plus_rx (chr emailDomainChar),
           lit ''.'', atLeast_rx 2 (chr tldChar), wordb]"
| "PII_PATTERNS PHONE =
     seqs [opt (seqs [lit ''+1'', opt (chr sepChar)]), opt (lit ''(''), repeat_rx 3 digit,
           opt (lit '')''), opt (chr sepChar), repeat_rx 3 digit, opt (chr sepChar), repeat_rx 4 digit]"
| "PII_PATTERNS SSN =
     seqs [wordb, neglook (alt (lit ''000'') (alt (lit ''666'') (seq (lit ''9'') (repeat_rx 2 digit)))),
           repeat_rx 3 digit, lit ''-'', neglook (lit ''00''), repeat_rx 2 digit, lit ''-'',
           neglook (repeat_rx 4 (lit ''0'')), repeat_rx 4 digit, wordb]"
| "PII_PATTERNS CREDIT_CARD =
     seqs [wordb, repeat_rx 3 (seq (repeat_rx 4 digit) (opt (chr dashOrSpace))),
           repeat_rx 4 digit, wordb]"
| "PII_PATTERNS API_KEY =
     alt (seqs [liti ''api'', opt (chr underscoreOrDash), liti ''key''])
         (seq (liti ''sk_'') (atLeast_rx 20 (chr lowerOrDigitIgnoreCase)))"

declare PII_PATTERNS.simps [simp del]

definition TOXIC_KEYWORDS :: "string list" where
  "TOXIC_KEYWORDS =
     [''hate'', ''kill'', ''harm'', ''violence'', ''abuse'', ''racist'', ''sexist'',
      ''slur'', ''threat'', ''terror'', ''bomb'', ''poison'', ''explicit content'']"

text \<open>The four patterns carry the \<^verbatim>\<open>i\<close> flag and no \<^verbatim>\<open>g\<close> flag.\<close>

definition INJECTION_PATTERNS :: "rx list" where
  "INJECTION_PATTERNS =
     [alt (liti ''ignore previous'') (alt (liti ''disregard the prompt'') (liti ''forget instructions'')),
      alt (liti ''system override'') (alt (liti ''admin mode'') (liti ''test mode'')),
      alt (liti ''bypass'') (alt (liti ''jailbreak'') (liti ''prompt injection'')),
      alt (liti ''execute command'') (alt (liti ''run code'') (liti ''eval''))]"

subsection \<open>Detectors\<close>

text \<open>
  The five PII regular expressions are module-level objects with the \<^verbatim>\<open>g\<close> flag, so
  each carries a \<open>lastIndex\<close> from call to call.  This record is that state.
\<close>

record piiRegExps =
  lastIndex_EMAIL :: nat
  lastIndex_PHONE :: nat
  lastIndex_SSN :: nat
  lastIndex_CREDIT_CARD :: nat
  lastIndex_API_KEY :: nat

text \<open>The state when the module has been loaded.\<close>

definition freshRegExps :: piiRegExps where
  "freshRegExps = \<lparr>lastIndex_EMAIL = 0, lastIndex_PHONE = 0, lastIndex_SSN = 0,
                   lastIndex_CREDIT_CARD = 0, lastIndex_API_KEY = 0\<rparr>"

text \<open>
  One \<^verbatim>\<open>if (P.test(text)) detected.push({type, count: (text.match(P) || []).length})\<close>:
  the count when the test succeeds, and the pattern's \<open>lastIndex\<close> afterwards.
  \<^verbatim>\<open>match\<close> sets \<open>lastIndex\<close> to 0 before it loops.
\<close>

definition testAndCount :: "rx \<Rightarrow> string \<Rightarrow> nat \<Rightarrow> nat option \<times> nat" where
  "testAndCount r txt li =
     (case test_g r txt li of
        (False, li') \<Rightarrow> (None, li')
      | (True, _) \<Rightarrow> (case matchLoop r txt 0 0 of (n, li'') \<Rightarrow> (Some n, li'')))"

definition detected :: "pii_kind \<Rightarrow> nat option \<Rightarrow> (pii_kind \<times> nat) list" where
  "detected k c = (case c of None \<Rightarrow> [] | Some n \<Rightarrow> [(k, n)])"

definition detectPII :: "string \<Rightarrow> piiRegExps \<Rightarrow> (pii_kind \<times> nat) list \<times> piiRegExps" where
  "detectPII txt st =
     (if txt = [] then ([], st)
      else
        case testAndCount (PII_PATTERNS EMAIL) txt (lastIndex_EMAIL st) of (c1, l1) \<Rightarrow>
        case testAndCount (PII_PATTERNS PHONE) txt (lastIndex_PHONE st) of (c2, l2) \<Rightarrow>
        case testAndCount (PII_PATTERNS SSN) txt (lastIndex_SSN st) of (c3, l3) \<Rightarrow>
        case testAndCount (PII_PATTERNS CREDIT_CARD) txt (lastIndex_CREDIT_CARD st) of (c4, l4) \<Rightarrow>
        case testAndCount (PII_PATTERNS API_KEY) txt (lastIndex_API_KEY st) of (c5, l5) \<Rightarrow>
          (detected EMAIL c1 @ detected PHONE c2 @ detected SSN c3 @ detected CREDIT_CARD c4
             @ detected API_KEY c5,
           \<lparr>lastIndex_EMAIL = l1, lastIndex_PHONE = l2, lastIndex_SSN = l3,
            lastIndex_CREDIT_CARD = l4, lastIndex_API_KEY = l5\<rparr>))"

definition detectToxicContent :: "string \<Rightarrow> bool" where
  "detectToxicContent txt =
     (if txt = [] then False
      else let lowerText = toLowerCase txt
           in list_ex (\<lambda>keyword. includes_str lowerText keyword) TOXIC_KEYWORDS)"

definition detectPromptInjection :: "string \<Rightarrow> bool" where
  "detectPromptInjection txt =
     (if txt = [] then False else list_ex (\<lambda>pattern. test_rx pattern txt) INJECTION_PATTERNS)"

subsection \<open>Threshold rules\<close>

datatype severity = Low | Medium | High | Critical

text \<open>The \<^verbatim>\<open>reason\<close> texts, with the numbers they interpolate kept as numbers.\<close>

datatype reason =
    NoBaseline
  | TokenUsageAbove200
  | TokenUsageAbove150
  | CostExceedsThreshold rat rat
  | CostSpike
  | RequestTimeout
  | LatencyAbove250 rat rat
  | LatencyElevated rat rat
  | VeryLowConfidence rat
  | ContradictoryStatements
  | HighErrorRate rat rat

text \<open>The object \<^verbatim>\<open>{ isAnomaly, reason, severity }\<close> a rule returns; an absent key is \<open>None\<close>.\<close>

record verdict =
  isAnomaly :: bool
  reason :: "reason option"
  severity :: "severity option"

definition analyzeTokenUsage :: "rat \<Rightarrow> rat \<Rightarrow> verdict" where
  "analyzeTokenUsage currentTokens averageTokens =
     (if averageTokens = 0 then \<lparr>isAnomaly = False, reason = Some NoBaseline, severity = None\<rparr>
      else let increase = (currentTokens - averageTokens) / averageTokens in
        if increase > 2 then
          \<lparr>isAnomaly = True, reason = Some TokenUsageAbove200, severity = None\<rparr>
        else if increase > 15 / 10 then
          \<lparr>isAnomaly = True, reason = Some TokenUsageAbove150, severity = Some Medium\<rparr>
        else \<lparr>isAnomaly = False, reason = None, severity = None\<rparr>)"

definition analyzeCostAnomaly :: "rat \<Rightarrow> rat \<Rightarrow> rat \<Rightarrow> verdict" where
  "analyzeCostAnomaly currentCost avgCost costThreshold =
     (if avgCost = 0 then \<lparr>isAnomaly = False, reason = None, severity = None\<rparr>
      else let increase = (currentCost - avgCost) / avgCost in
        if currentCost > costThreshold then
          \<lparr>isAnomaly = True, reason = Some (CostExceedsThreshold currentCost costThreshold),
           severity = None\<rparr>
        else if increase > 3 then
          \<lparr>isAnomaly = True, reason = Some CostSpike, severity = None\<rparr>
        else \<lparr>isAnomaly = False, reason = None, severity = None\<rparr>)"

definition analyzeLatencyAnomaly :: "rat \<Rightarrow> rat \<Rightarrow> verdict" where
  "analyzeLatencyAnomaly latency avgLatency =
     (if avgLatency = 0 then \<lparr>isAnomaly = False, reason = None, severity = None\<rparr>
      else let increase = (latency - avgLatency) / avgLatency in
        if latency > 30000 then
          \<lparr>isAnomaly = True, reason = Some RequestTimeout, severity = None\<rparr>
        else if increase > 25 / 10 then
          \<lparr>isAnomaly = True, reason = Some (LatencyAbove250 latency avgLatency), severity = None\<rparr>
        else if increase > 15 / 10 then
          \<lparr>isAnomaly = True, reason = Some (LatencyElevated latency avgLatency),
           severity = Some Medium\<rparr>
        else \<lparr>isAnomaly = False, reason = None, severity = None\<rparr>)"

definition detectHallucination :: "string \<Rightarrow> rat \<Rightarrow> verdict" where
  "detectHallucination resp confidence =
     (if resp = [] then \<lparr>isAnomaly = False, reason = None, severity = None\<rparr>
      else if confidence < 3 / 10 then
        \<lparr>isAnomaly = True, reason = Some (VeryLowConfidence confidence), severity = None\<rparr>
      else if includes_str resp ''I am not sure'' \<and> includes_str resp ''The answer is'' then
        \<lparr>isAnomaly = True, reason = Some ContradictoryStatements, severity = None\<rparr>
      else \<lparr>isAnomaly = False, reason = None, severity = None\<rparr>)"

definition analyzeErrorPattern :: "rat \<Rightarrow> rat \<Rightarrow> verdict" where
  "analyzeErrorPattern errors timeWindowMinutes =
     (if errors > 10 then
        \<lparr>isAnomaly = True, reason = Some (HighErrorRate errors timeWindowMinutes), severity = None\<rparr>
      else \<lparr>isAnomaly = False, reason = None, severity = None\<rparr>)"

subsection \<open>The classifier\<close>

text \<open>
  The object handed to \<^verbatim>\<open>analyzeMessage\<close>, \<^verbatim>\<open>handleRequest\<close> and \<^verbatim>\<open>handleResponse\<close>:
  every key may be absent.
\<close>

record message =
  requestId :: "string option"
  userId :: "string option"
  model :: "string option"
  prompt :: "string option"
  response :: "string option"
  tokenCount :: "rat option"
  avgTokenCount :: "rat option"
  cost :: "rat option"
  avgCost :: "rat option"
  latencyMs :: "rat option"
  avgLatencyMs :: "rat option"
  completionTokens :: "rat option"
  totalTokens :: "rat option"
  confidenceScore :: "rat option"
  errorCount :: "rat option"
  metadata :: "(string \<times> string) list option"

datatype anomalyType =
    PII_IN_REQUEST | PII_LEAKAGE | TOXIC_CONTENT | PROMPT_INJECTION | TOKEN_ANOMALY
  | COST_ANOMALY | PERFORMANCE_DEGRADATION | HALLUCINATION | ERROR_SPIKE

datatype description =
    PIIDetectedInUserInput "pii_kind list"
  | ModelLeakedPII "pii_kind list"
  | ToxicContentGenerated
  | PossiblePromptInjection
  | Reason "reason option"

text \<open>The keys of a finding beyond type, severity and description.\<close>

datatype evidence =
    NoEvidence
  | DetailedPII "(pii_kind \<times> nat) list"
  | Tokens rat rat
  | Cost rat rat
  | Latency rat rat
  | Confidence rat
  | Errors rat

record finding =
  ftype :: anomalyType
  fseverity :: severity
  fdescription :: description
  fevidence :: evidence

text \<open>JavaScript truthiness of an optional string, and \<^verbatim>\<open>x || d\<close>.\<close>

definition truthy :: "string option \<Rightarrow> bool" where
  "truthy x = (case x of None \<Rightarrow> False | Some s \<Rightarrow> s \<noteq> [])"

definition orElse :: "'a option \<Rightarrow> 'a \<Rightarrow> 'a" where
  "orElse x d = (case x of None \<Rightarrow> d | Some v \<Rightarrow> v)"

text \<open>The blocks of \<^verbatim>\<open>analyzeMessage\<close>, each the list of findings it pushes.\<close>

definition piiInRequestAnomaly :: "(pii_kind \<times> nat) list \<Rightarrow> finding list" where
  "piiInRequestAnomaly piiInRequest =
     (if length piiInRequest > 0 then
        [\<lparr>ftype = PII_IN_REQUEST, fseverity = Critical,
          fdescription = PIIDetectedInUserInput (map fst piiInRequest),
          fevidence = DetailedPII piiInRequest\<rparr>]
      else [])"

definition piiInResponseAnomaly :: "(pii_kind \<times> nat) list \<Rightarrow> finding list" where
  "piiInResponseAnomaly piiInResponse =
     (if length piiInResponse > 0 then
        [\<lparr>ftype = PII_LEAKAGE, fseverity = Critical,
          fdescription = ModelLeakedPII (map fst piiInResponse),
          fevidence = DetailedPII piiInResponse\<rparr>]
      else [])"

definition toxicAnomaly :: "message \<Rightarrow> finding list" where
  "toxicAnomaly m =
     (if truthy (response m) \<and> detectToxicContent (orElse (response m) []) then
        [\<lparr>ftype = TOXIC_CONTENT, fseverity = High, fdescription = ToxicContentGenerated,
          fevidence = NoEvidence\<rparr>]
      else [])"

definition injectionAnomaly :: "message \<Rightarrow> finding list" where
  "injectionAnomaly m =
     (if truthy (prompt m) \<and> detectPromptInjection (orElse (prompt m) []) then
        [\<lparr>ftype = PROMPT_INJECTION, fseverity = Critical, fdescription = PossiblePromptInjection,
          fevidence = NoEvidence\<rparr>]
      else [])"

definition tokenAnomaly :: "message \<Rightarrow> finding list" where
  "tokenAnomaly m =
     (case (tokenCount m, avgTokenCount m) of
        (Some t, Some a) \<Rightarrow>
          (let v = analyzeTokenUsage t a in
           if isAnomaly v then
             [\<lparr>ftype = TOKEN_ANOMALY, fseverity = orElse (severity v) Medium,
               fdescription = Reason (reason v), fevidence = Tokens t a\<rparr>]
           else [])
      | _ \<Rightarrow> [])"

definition costAnomaly :: "message \<Rightarrow> finding list" where
  "costAnomaly m =
     (case (cost m, avgCost m) of
        (Some c, Some a) \<Rightarrow>
          (let v = analyzeCostAnomaly c a 50 in
           if isAnomaly v then
             [\<lparr>ftype = COST_ANOMALY, fseverity = High,
               fdescription = Reason (reason v), fevidence = Cost c a\<rparr>]
           else [])
      | _ \<Rightarrow> [])"

definition latencyAnomaly :: "message \<Rightarrow> finding list" where
  "latencyAnomaly m =
     (case (latencyMs m, avgLatencyMs m) of
        (Some l, Some a) \<Rightarrow>
          (let v = analyzeLatencyAnomaly l a in
           if isAnomaly v then
             [\<lparr>ftype = PERFORMANCE_DEGRADATION, fseverity = orElse (severity v) High,
               fdescription = Reason (reason v), fevidence = Latency l a\<rparr>]
           else [])
      | _ \<Rightarrow> [])"

definition hallucinationAnomaly :: "message \<Rightarrow> finding list" where
  "hallucinationAnomaly m =
     (case confidenceScore m of
        Some c \<Rightarrow>
          (if truthy (response m) then
             (let v = detectHallucination (orElse (response m) []) c in
              if isAnomaly v then
                [\<lparr>ftype = HALLUCINATION, fseverity = High,
                  fdescription = Reason (reason v), fevidence = Confidence c\<rparr>]
              else [])
           else [])
      | None \<Rightarrow> [])"

definition errorAnomaly :: "message \<Rightarrow> finding list" where
  "errorAnomaly m =
     (case errorCount m of
        Some e \<Rightarrow>
          (if e > 0 then
             (let v = analyzeErrorPattern e 5 in
              if isAnomaly v then
                [\<lparr>ftype = ERROR_SPIKE, fseverity = High,
                  fdescription = Reason (reason v), fevidence = Errors e\<rparr>]
              else [])
           else [])
      | None \<Rightarrow> [])"

text \<open>
  \<^verbatim>\<open>analyzeMessage\<close>: the findings in the order they are pushed, and the state of the PII
  regular expressions after the call.
\<close>

definition analyzeMessage :: "message \<Rightarrow> piiRegExps \<Rightarrow> finding list \<times> piiRegExps" where
  "analyzeMessage m st =
     (case (if truthy (prompt m) then detectPII (orElse (prompt m) []) st else ([], st)) of
        (piiInRequest, st1) \<Rightarrow>
     (case (if truthy (response m) then detectPII (orElse (response m) []) st1 else ([], st1)) of
        (piiInResponse, st2) \<Rightarrow>
          (piiInRequestAnomaly piiInRequest @ piiInResponseAnomaly piiInResponse
             @ toxicAnomaly m @ injectionAnomaly m @ tokenAnomaly m @ costAnomaly m
             @ latencyAnomaly m @ hallucinationAnomaly m @ errorAnomaly m,
           st2)))"

section \<open>Event publisher (kafka-integration/producer)\<close>

datatype status = Open | Closed

datatype priority = Urgent | HighPriority

datatype topic = LLM_REQUESTS | LLM_RESPONSES | LLM_ANOMALIES | LLM_ALERTS

text \<open>Times are milliseconds since the epoch; \<^verbatim>\<open>new Date(iso)\<close> of an ISO string is that number.\<close>

record requestPayload =
  rq_requestId :: string
  rq_userId :: string
  rq_model :: string
  rq_prompt :: "string option"
  rq_timestamp :: nat
  rq_tokenCount :: "rat option"
  rq_cost :: rat
  rq_metadata :: "(string \<times> string) list"

record responsePayload =
  rs_requestId :: "string option"
  rs_response :: "string option"
  rs_model :: string
  rs_latencyMs :: "rat option"
  rs_completionTokens :: "rat option"
  rs_totalTokens :: "rat option"
  rs_confidenceScore :: "rat option"
  rs_timestamp :: nat

text \<open>\<^verbatim>\<open>{ ...anomaly, requestId, userId }\<close>\<close>

record anomalyData = finding +
  a_requestId :: "string option"
  a_userId :: "string option"

record alert =
  alertType :: anomalyType
  alertMessage :: description
  alertSeverity :: severity
  alertRequestId :: "string option"
  alertUserId :: "string option"
  impactDescription :: string
  alertPriority :: priority

record incident =
  incidentId :: string
  itype :: anomalyType
  iseverity :: severity
  irequestId :: "string option"
  iuserId :: "string option"
  idescription :: description
  itimestamp :: nat
  status :: status
  resolution :: "string option"
  closedAt :: "nat option"

datatype kafkaKey = KeyString string | KeyUndefined | KeyType anomalyType

datatype kafkaValue =
    RequestEvent requestPayload
  | ResponseEvent responsePayload
  | AnomalyEvent anomalyData
  | AlertEvent alert

text \<open>
  One message handed to \<^verbatim>\<open>producer.send\<close>.  \<open>msgTimestamp\<close> is the \<^verbatim>\<open>timestamp\<close> key of
  the serialised value, which the publisher overwrites with the time of publication.
\<close>

record kafkaMessage =
  msgTopic :: topic
  msgKey :: kafkaKey
  msgValue :: kafkaValue
  msgTimestamp :: nat

text \<open>
  What the surroundings decide: the identifiers \<^verbatim>\<open>uuidv4()\<close> hands out, the clock readings
  of \<^verbatim>\<open>new Date()\<close>, and for each call of \<^verbatim>\<open>producer.send\<close> whether it resolves (\<open>None\<close>)
  or rejects with an error message.  Each is indexed by the number of earlier calls.
\<close>

record env =
  uuidv4 :: "nat \<Rightarrow> string"
  clock :: "nat \<Rightarrow> nat"
  sendFails :: "nat \<Rightarrow> string option"

text \<open>
  The state of the process: the module-level \<^verbatim>\<open>metrics\<close> collections, the incident objects
  they refer to, the regular expressions' state, what the transport has accepted, and the
  error console.  \<open>incidents\<close> is the array \<^verbatim>\<open>metrics.incidents\<close>: references into \<open>heap\<close>,
  where the \<open>a\<close>-th incident object created lives at index \<open>a\<close>.
\<close>

record world =
  requests :: "requestPayload list"
  responses :: "responsePayload list"
  incidents :: "nat list"
  heap :: "incident list"
  regExps :: piiRegExps
  kafka :: "kafkaMessage list"
  stderr :: "string list"
  uuidCalls :: nat
  clockCalls :: nat
  sendCalls :: nat

definition initialWorld :: world where
  "initialWorld =
     \<lparr>requests = [], responses = [], incidents = [], heap = [], regExps = freshRegExps,
      kafka = [], stderr = [], uuidCalls = 0, clockCalls = 0, sendCalls = 0\<rparr>"

datatype error = KafkaError string

definition errorMessage :: "error \<Rightarrow> string" where
  "errorMessage e = (case e of KafkaError m \<Rightarrow> m)"

definition newDate :: "env \<Rightarrow> world \<Rightarrow> nat \<times> world" where
  "newDate e w = (clock e (clockCalls w), w\<lparr>clockCalls := Suc (clockCalls w)\<rparr>)"

definition newUuid :: "env \<Rightarrow> world \<Rightarrow> string \<times> world" where
  "newUuid e w = (uuidv4 e (uuidCalls w), w\<lparr>uuidCalls := Suc (uuidCalls w)\<rparr>)"

definition consoleError :: "string \<Rightarrow> error \<Rightarrow> world \<Rightarrow> world" where
  "consoleError prefix err w = w\<lparr>stderr := stderr w @ [prefix @ '' '' @ errorMessage err]\<rparr>"

definition producerSend :: "env \<Rightarrow> kafkaMessage \<Rightarrow> world \<Rightarrow> (error + unit) \<times> world" where
  "producerSend e msg w =
     (case sendFails e (sendCalls w) of
        None \<Rightarrow> (Inr (), w\<lparr>kafka := kafka w @ [msg], sendCalls := Suc (sendCalls w)\<rparr>)
      | Some m \<Rightarrow> (Inl (KafkaError m), w\<lparr>sendCalls := Suc (sendCalls w)\<rparr>))"

text \<open>
  The four publishers build the message (reading the clock), send it, and on a rejection
  log the error and throw it again.
\<close>

definition sendOrLog :: "string \<Rightarrow> env \<Rightarrow> kafkaMessage \<Rightarrow> world \<Rightarrow> (error + unit) \<times> world" where
  "sendOrLog prefix e msg w =
     (case producerSend e msg w of
        (Inl err, w') \<Rightarrow> (Inl err, consoleError prefix err w')
      | (Inr u, w') \<Rightarrow> (Inr u, w'))"

definition publishRequest :: "env \<Rightarrow> requestPayload \<Rightarrow> world \<Rightarrow> (error + unit) \<times> world" where
  "publishRequest e requestData w =
     (case newDate e w of (t, w1) \<Rightarrow>
        sendOrLog ''Failed to publish request:'' e
          \<lparr>msgTopic = LLM_REQUESTS,
           msgKey = KeyString (if rq_userId requestData = [] then ''unknown'' else rq_userId requestData),
           msgValue = RequestEvent requestData, msgTimestamp = t\<rparr> w1)"

definition publishResponse :: "env \<Rightarrow> responsePayload \<Rightarrow> world \<Rightarrow> (error + unit) \<times> world" where
  "publishResponse e responseData w =
     (case newDate e w of (t, w1) \<Rightarrow>
        sendOrLog ''Failed to publish response:'' e
          \<lparr>msgTopic = LLM_RESPONSES,
           msgKey = (case rs_requestId responseData of None \<Rightarrow> KeyUndefined | Some r \<Rightarrow> KeyString r),
           msgValue = ResponseEvent responseData, msgTimestamp = t\<rparr> w1)"

definition producerPublishAnomaly :: "env \<Rightarrow> anomalyData \<Rightarrow> world \<Rightarrow> (error + unit) \<times> world" where
  "producerPublishAnomaly e a w =
     (case newDate e w of (t, w1) \<Rightarrow>
        sendOrLog ''Failed to publish anomaly:'' e
          \<lparr>msgTopic = LLM_ANOMALIES, msgKey = KeyType (ftype a),
           msgValue = AnomalyEvent a, msgTimestamp = t\<rparr> w1)"

definition publishAlert :: "env \<Rightarrow> alert \<Rightarrow> world \<Rightarrow> (error + unit) \<times> world" where
  "publishAlert e alertData w =
     (case newDate e w of (t, w1) \<Rightarrow>
        sendOrLog ''Failed to publish alert:'' e
          \<lparr>msgTopic = LLM_ALERTS, msgKey = KeyType (alertType alertData),
           msgValue = AlertEvent alertData, msgTimestamp = t\<rparr> w1)"

section \<open>Incident manager\<close>

text \<open>\<^verbatim>\<open>x || d\<close> for an optional string: an absent or empty string gives the default.\<close>

definition orDefault :: "string option \<Rightarrow> string \<Rightarrow> string" where
  "orDefault x d = (if truthy x then orElse x [] else d)"

text \<open>JavaScript truthiness of an optional number.\<close>

definition truthyNum :: "rat option \<Rightarrow> bool" where
  "truthyNum x = (case x of None \<Rightarrow> False | Some v \<Rightarrow> v \<noteq> 0)"

definition handleRequest :: "env \<Rightarrow> message \<Rightarrow> world \<Rightarrow> (error + string \<times> nat) \<times> world" where
  "handleRequest e requestData w =
     (case newUuid e w of (rid, w1) \<Rightarrow>
      case newDate e w1 of (timestamp, w2) \<Rightarrow>
        let payload =
              \<lparr>rq_requestId = rid,
               rq_userId = orDefault (userId requestData) ''anonymous'',
               rq_model = orDefault (model requestData) ''unknown'',
               rq_prompt = prompt requestData,
               rq_timestamp = timestamp,
               rq_tokenCount = tokenCount requestData,
               rq_cost = orElse (cost requestData) 0,
               rq_metadata = orElse (metadata requestData) []\<rparr>
        in (case publishRequest e payload w2 of
              (Inl err, w3) \<Rightarrow> (Inl err, consoleError ''Failed to handle request:'' err w3)
            | (Inr _, w3) \<Rightarrow> (Inr (rid, timestamp), w3\<lparr>requests := requests w3 @ [payload]\<rparr>)))"

text \<open>
  \<^verbatim>\<open>getAverageMetrics('responses')\<close>: the value of the key \<^verbatim>\<open>avgLatencyMs\<close>, or \<open>None\<close> for
  the empty object returned when no response is retained.  \<open>latencies\<close> is
  \<^verbatim>\<open>metrics.responses.filter(r => r.latencyMs).map(r => r.latencyMs)\<close>.
\<close>

definition latencies :: "responsePayload list \<Rightarrow> rat list" where
  "latencies rs =
     map (\<lambda>r. orElse (rs_latencyMs r) 0) (filter (\<lambda>r. truthyNum (rs_latencyMs r)) rs)"

definition getAverageMetrics :: "world \<Rightarrow> rat option" where
  "getAverageMetrics w =
     (if length (responses w) > 0 then
        Some (if length (latencies (responses w)) > 0
              then sum_list (latencies (responses w)) / of_nat (length (latencies (responses w)))
              else 0)
      else None)"

definition getAlertImpact :: "anomalyType \<Rightarrow> string" where
  "getAlertImpact t =
     (case t of
        PII_LEAKAGE \<Rightarrow> ''Sensitive user data may have been exposed in model response''
      | PROMPT_INJECTION \<Rightarrow> ''Potential security breach attempt detected''
      | TOXIC_CONTENT \<Rightarrow> ''Model generated harmful or offensive content''
      | COST_ANOMALY \<Rightarrow> ''Unexpected spike in API costs detected''
      | PERFORMANCE_DEGRADATION \<Rightarrow> ''Service response times significantly degraded''
      | HALLUCINATION \<Rightarrow> ''Model generated potentially false or misleading information''
      | ERROR_SPIKE \<Rightarrow> ''Unusual number of errors detected''
      | TOKEN_ANOMALY \<Rightarrow> ''Token usage abnormally high''
      | PII_IN_REQUEST \<Rightarrow> ''Anomaly detected in LLM behavior'')"

text \<open>\<^verbatim>\<open>['critical', 'high'].includes(anomalyData.severity)\<close>\<close>

definition shouldAlert :: "severity \<Rightarrow> bool" where
  "shouldAlert sev = (sev \<in> set [Critical, High])"

text \<open>
  \<^verbatim>\<open>publishAnomaly\<close> of the incident manager.  It returns the new incident (its address in
  \<open>heap\<close>) or \<^verbatim>\<open>null\<close>.
\<close>

definition publishAnomaly :: "env \<Rightarrow> anomalyData \<Rightarrow> world \<Rightarrow> (error + nat option) \<times> world" where
  "publishAnomaly e a w =
     (if shouldAlert (fseverity a) then
        (case publishAlert e
                \<lparr>alertType = ftype a, alertMessage = fdescription a, alertSeverity = fseverity a,
                 alertRequestId = a_requestId a, alertUserId = a_userId a,
                 impactDescription = getAlertImpact (ftype a),
                 alertPriority = (if fseverity a = Critical then Urgent else HighPriority)\<rparr> w of
           (Inl err, w1) \<Rightarrow> (Inl err, consoleError ''Failed to publish anomaly:'' err w1)
         | (Inr _, w1) \<Rightarrow>
             (case newUuid e w1 of (iid, w2) \<Rightarrow>
              case newDate e w2 of (t, w3) \<Rightarrow>
                let inc = \<lparr>incidentId = iid, itype = ftype a, iseverity = fseverity a,
                           irequestId = a_requestId a, iuserId = a_userId a,
                           idescription = fdescription a, itimestamp = t, status = Open,
                           resolution = None, closedAt = None\<rparr>
                in (Inr (Some (length (heap w3))),
                    w3\<lparr>heap := heap w3 @ [inc], incidents := incidents w3 @ [length (heap w3)]\<rparr>)))
      else
        (case producerPublishAnomaly e a w of
           (Inl err, w1) \<Rightarrow> (Inl err, consoleError ''Failed to publish anomaly:'' err w1)
         | (Inr _, w1) \<Rightarrow> (Inr None, w1)))"

text \<open>
  \<^verbatim>\<open>for (const anomaly of anomalies) await publishAnomaly({...})\<close>: the first error ends
  the loop.
\<close>

fun publishAnomalies :: "env \<Rightarrow> anomalyData list \<Rightarrow> world \<Rightarrow> (error + unit) \<times> world" where
  "publishAnomalies e [] w = (Inr (), w)"
| "publishAnomalies e (a # as) w =
     (case publishAnomaly e a w of
        (Inl err, w1) \<Rightarrow> (Inl err, w1)
      | (Inr _, w1) \<Rightarrow> publishAnomalies e as w1)"

definition withIds :: "message \<Rightarrow> finding \<Rightarrow> anomalyData" where
  "withIds responseData f =
     \<lparr>ftype = ftype f, fseverity = fseverity f, fdescription = fdescription f,
      fevidence = fevidence f, a_requestId = requestId responseData,
      a_userId = userId responseData\<rparr>"

text \<open>\<^verbatim>\<open>{ ...responseData, ...getAverageMetrics('responses') }\<close>\<close>

definition analysisPayload :: "message \<Rightarrow> world \<Rightarrow> message" where
  "analysisPayload responseData w =
     (case getAverageMetrics w of
        None \<Rightarrow> responseData
      | Some avg \<Rightarrow> responseData\<lparr>avgLatencyMs := Some avg\<rparr>)"

definition responsePayloadOf :: "message \<Rightarrow> nat \<Rightarrow> responsePayload" where
  "responsePayloadOf responseData timestamp =
     \<lparr>rs_requestId = requestId responseData,
      rs_response = response responseData,
      rs_model = orDefault (model responseData) ''unknown'',
      rs_latencyMs = latencyMs responseData,
      rs_completionTokens = completionTokens responseData,
      rs_totalTokens = totalTokens responseData,
      rs_confidenceScore = confidenceScore responseData,
      rs_timestamp = timestamp\<rparr>"

text \<open>\<^verbatim>\<open>handleResponse\<close>: on success the \<^verbatim>\<open>anomalyCount\<close>.\<close>

definition handleResponse :: "env \<Rightarrow> message \<Rightarrow> world \<Rightarrow> (error + nat) \<times> world" where
  "handleResponse e responseData w =
     (case newDate e w of (timestamp, w1) \<Rightarrow>
        let payload = responsePayloadOf responseData timestamp
        in (case publishResponse e payload w1 of
              (Inl err, w2) \<Rightarrow> (Inl err, consoleError ''Failed to handle response:'' err w2)
            | (Inr _, w2) \<Rightarrow>
                (let w3 = w2\<lparr>responses := responses w2 @ [payload]\<rparr>
                 in (case analyzeMessage (analysisPayload responseData w3) (regExps w3) of
                       (anomalies, st) \<Rightarrow>
                         (case publishAnomalies e (map (withIds responseData) anomalies)
                                 (w3\<lparr>regExps := st\<rparr>) of
                            (Inl err, w4) \<Rightarrow>
                              (Inl err, consoleError ''Failed to handle response:'' err w4)
                          | (Inr _, w4) \<Rightarrow> (Inr (length anomalies), w4))))))"

text \<open>
  \<^verbatim>\<open>getRecentIncidents\<close> sorts \<^verbatim>\<open>metrics.incidents\<close> in place, newest first (the sort is
  stable), and returns the first \<open>n\<close> references.
\<close>

definition getRecentIncidents :: "nat \<Rightarrow> world \<Rightarrow> nat list \<times> world" where
  "getRecentIncidents n w =
     (let sorted_incidents = sort_key (\<lambda>a. - int (itimestamp (heap w ! a))) (incidents w)
      in (take n sorted_incidents, w\<lparr>incidents := sorted_incidents\<rparr>))"

definition getIncidentDetails :: "string \<Rightarrow> world \<Rightarrow> nat option" where
  "getIncidentDetails iid w = find (\<lambda>a. incidentId (heap w ! a) = iid) (incidents w)"

definition closeIncident :: "env \<Rightarrow> string \<Rightarrow> string option \<Rightarrow> world \<Rightarrow> nat option \<times> world" where
  "closeIncident e iid res w =
     (case find (\<lambda>a. incidentId (heap w ! a) = iid) (incidents w) of
        Some a \<Rightarrow>
          (case newDate e w of (t, w1) \<Rightarrow>
             (Some a,
              w1\<lparr>heap := (heap w1)[a := (heap w1 ! a)\<lparr>status := Closed, resolution := res,
                                                     closedAt := Some t\<rparr>]\<rparr>))
      | None \<Rightarrow> (None, w))"





text \<open>
  \<^verbatim>\<open>parseFloat(x.toFixed(k))\<close>, on exact numbers: \<open>x\<close> rounded to \<open>k\<close> decimal places.
\<close>

definition toFixed :: "nat \<Rightarrow> rat \<Rightarrow> rat" where
  "toFixed k x = of_int \<lfloor>x * 10 ^ k + 1 / 2\<rfloor> / 10 ^ k"

text \<open>\<^verbatim>\<open>acc[k] = (acc[k] || 0) + c\<close>\<close>

definition addCost :: "(string \<rightharpoonup> rat) \<Rightarrow> string \<Rightarrow> rat \<Rightarrow> (string \<rightharpoonup> rat)" where
  "addCost acc k c = acc(k \<mapsto> orElse (acc k) 0 + c)"

record costAnalytics =
  totalCost :: rat
  avgCostPerRequest :: rat
  costByUser :: "string \<rightharpoonup> rat"
  costByModel :: "string \<rightharpoonup> rat"

definition getCostAnalytics :: "world \<Rightarrow> costAnalytics" where
  "getCostAnalytics w =
     (let total = foldl (\<lambda>acc req. acc + rq_cost req) 0 (requests w);
          avgPerRequest = (if length (requests w) > 0 then total / of_nat (length (requests w)) else 0)
      in \<lparr>totalCost = toFixed 2 total,
          avgCostPerRequest = toFixed 4 avgPerRequest,
          costByUser =
            foldl (\<lambda>acc req. addCost acc (orDefault (Some (rq_userId req)) ''anonymous'') (rq_cost req))
                  Map.empty (requests w),
          costByModel =
            foldl (\<lambda>acc req. addCost acc (orDefault (Some (rq_model req)) ''unknown'') (rq_cost req))
                  Map.empty (requests w)\<rparr>)"

subsection \<open>Sequences of operations\<close>

text \<open>The exported operations of the incident manager, as calls with their arguments.\<close>

datatype operation =
    HandleRequest message
  | HandleResponse message
  | PublishAnomaly anomalyData
  | GetRecentIncidents nat
  | GetIncidentDetails string
  | CloseIncident string "string option"
  | GetSafetyMetrics
  | GetCostAnalytics

text \<open>The state after one call; the reads leave it as it is, except for the sort.\<close>

fun step :: "env \<Rightarrow> world \<Rightarrow> operation \<Rightarrow> world" where
  "step e w (HandleRequest m) = snd (handleRequest e m w)"
| "step e w (HandleResponse m) = snd (handleResponse e m w)"
| "step e w (PublishAnomaly a) = snd (publishAnomaly e a w)"
| "step e w (GetRecentIncidents n) = snd (getRecentIncidents n w)"
| "step e w (GetIncidentDetails i) = w"
| "step e w (CloseIncident i r) = snd (closeIncident e i r w)"
| "step e w GetSafetyMetrics = w"
| "step e w GetCostAnalytics = w"

definition run :: "env \<Rightarrow> world \<Rightarrow> operation list \<Rightarrow> world" where
  "run e w ops = foldl (step e) w ops"

section \<open>Auxiliary definitions for the statements\<close>

subsection \<open>Findings, escalation and publication, as the statements describe them\<close>

text \<open>The severities of the findings of one type, in the order of the findings.\<close>

definition severitiesOf :: "anomalyType \<Rightarrow> finding list \<Rightarrow> severity list" where
  "severitiesOf t fs = map fseverity (filter (\<lambda>f. ftype f = t) fs)"


text \<open>The specification's escalation condition: severity high or critical.\<close>

definition escalates :: "severity \<Rightarrow> bool" where
  "escalates s = (s = High \<or> s = Critical)"

text \<open>
  What a reader of a topic sees of a message: its topic and, for an anomaly or alert event,
  the type, the severity and (alerts only) the priority it carries.
\<close>

definition published ::
  "kafkaMessage \<Rightarrow> topic \<times> anomalyType option \<times> severity option \<times> priority option" where
  "published m =
     (case msgValue m of
        AlertEvent al \<Rightarrow>
          (msgTopic m, Some (alertType al), Some (alertSeverity al), Some (alertPriority al))
      | AnomalyEvent a \<Rightarrow> (msgTopic m, Some (ftype a), Some (fseverity a), None)
      | RequestEvent _ \<Rightarrow> (msgTopic m, None, None, None)
      | ResponseEvent _ \<Rightarrow> (msgTopic m, None, None, None))"

text \<open>
  The publication of a finding: an alert event with a severity-derived priority for an
  escalating finding, an anomaly event otherwise.
\<close>

definition expectedPublication ::
  "'a finding_scheme \<Rightarrow> topic \<times> anomalyType option \<times> severity option \<times> priority option" where
  "expectedPublication f =
     (if escalates (fseverity f)
      then (LLM_ALERTS, Some (ftype f), Some (fseverity f),
            Some (if fseverity f = Critical then Urgent else HighPriority))
      else (LLM_ANOMALIES, Some (ftype f), Some (fseverity f), None))"

text \<open>What an incident records of its finding, with its status and close time.\<close>

definition opened :: "incident \<Rightarrow> anomalyType \<times> severity \<times> description \<times> status \<times> nat option" where
  "opened i = (itype i, iseverity i, idescription i, status i, closedAt i)"

definition expectedIncident ::
  "'a finding_scheme \<Rightarrow> anomalyType \<times> severity \<times> description \<times> status \<times> nat option" where
  "expectedIncident f = (ftype f, fseverity f, fdescription f, Open, None)"

text \<open>
  Within \<^verbatim>\<open>handleResponse\<close>: the payload it appends to \<^verbatim>\<open>metrics.responses\<close>, the object it
  hands to \<^verbatim>\<open>analyzeMessage\<close> (built after the append), and the findings it gets back.
\<close>

definition recordedResponse :: "env \<Rightarrow> message \<Rightarrow> world \<Rightarrow> responsePayload" where
  "recordedResponse e responseData w = responsePayloadOf responseData (clock e (clockCalls w))"

definition classified :: "env \<Rightarrow> message \<Rightarrow> world \<Rightarrow> message" where
  "classified e responseData w =
     analysisPayload responseData
       (w\<lparr>responses := responses w @ [recordedResponse e responseData w]\<rparr>)"

definition findingsOf :: "env \<Rightarrow> message \<Rightarrow> world \<Rightarrow> finding list" where
  "findingsOf e responseData w = fst (analyzeMessage (classified e responseData w) (regExps w))"

text \<open>A call returned normally (it did not throw).\<close>

definition returned :: "'e + 'a \<Rightarrow> bool" where
  "returned r = (case r of Inl _ \<Rightarrow> False | Inr _ \<Rightarrow> True)"

subsection \<open>The incident lifecycle\<close>

text \<open>
  Every incident object has \<open>closedAt\<close> set exactly when its status is closed, and every
  reference in \<^verbatim>\<open>metrics.incidents\<close> points to an incident object.
\<close>

definition lifecycleInvariant :: "world \<Rightarrow> bool" where
  "lifecycleInvariant w =
     (list_all (\<lambda>i. (closedAt i \<noteq> None) = (status i = Closed)) (heap w) \<and>
      list_all (\<lambda>a. a < length (heap w)) (incidents w))"

text \<open>
  From \<open>w\<close> to \<open>w'\<close> no incident object is lost or changes its identifier, none goes from
  closed back to open, and every retained incident stays retained.
\<close>

definition neverReopened :: "world \<Rightarrow> world \<Rightarrow> bool" where
  "neverReopened w w' =
     (length (heap w) \<le> length (heap w') \<and>
      list_all (\<lambda>a. incidentId (heap w' ! a) = incidentId (heap w ! a) \<and>
                     (status (heap w ! a) = Closed \<longrightarrow> status (heap w' ! a) = Closed))
               [0..<length (heap w)] \<and>
      list_all (\<lambda>a. a \<in> set (incidents w')) (incidents w))"

subsection \<open>Example inputs\<close>

text \<open>The object \<^verbatim>\<open>{}\<close>.\<close>

definition emptyMessage :: message where
  "emptyMessage =
     \<lparr>requestId = None, userId = None, model = None, prompt = None, response = None,
      tokenCount = None, avgTokenCount = None, cost = None, avgCost = None, latencyMs = None,
      avgLatencyMs = None, completionTokens = None, totalTokens = None, confidenceScore = None,
      errorCount = None, metadata = None\<rparr>"

text \<open>
  \<^verbatim>\<open>{ requestId: 'r1', response: 'hi there', latencyMs: l, avgLatencyMs: 1000 }\<close>
\<close>

definition exampleResponse :: "rat \<Rightarrow> message" where
  "exampleResponse l =
     emptyMessage\<lparr>requestId := Some ''r1'', response := Some ''hi there'', latencyMs := Some l,
                  avgLatencyMs := Some 1000\<rparr>"

text \<open>Surroundings in which the transport rejects every message.\<close>

definition failingEnv :: env where
  "failingEnv =
     \<lparr>uuidv4 = (\<lambda>n. ''id-'' @ replicate n CHR ''x''), clock = (\<lambda>n. 1000 + 60000 * n),
      sendFails = (\<lambda>n. Some ''broker unreachable'')\<rparr>"

text \<open>Surroundings in which the transport accepts every message.\<close>

definition workingEnv :: env where
  "workingEnv =
     \<lparr>uuidv4 = (\<lambda>n. ''id-'' @ replicate n CHR ''x''), clock = (\<lambda>n. 1000 + 60000 * n),
      sendFails = (\<lambda>n. None)\<rparr>"

text \<open>\<^verbatim>\<open>{ userId: 'u1', model: 'gpt-x', prompt: 'hello', cost: 1 }\<close>\<close>

definition exampleRequest :: message where
  "exampleRequest =
     emptyMessage\<lparr>userId := Some ''u1'', model := Some ''gpt-x'', prompt := Some ''hello'',
                  cost := Some 1\<rparr>"




text \<open>Surroundings in which the transport accepts the first message and rejects the rest.\<close>

definition flakyEnv :: env where
  "flakyEnv =
     \<lparr>uuidv4 = (\<lambda>n. ''id-'' @ replicate n CHR ''x''), clock = (\<lambda>n. 1000 + 60000 * n),
      sendFails = (\<lambda>n. if n = 0 then None else Some ''broker unreachable'')\<rparr>"

text \<open>
  \<^verbatim>\<open>{ requestId: 'r1', userId: 'u1', response: 'hi there', latencyMs: 500, confidenceScore: 0.1 }\<close>
  and the finding it yields.
\<close>

definition lowConfidenceResponse :: message where
  "lowConfidenceResponse =
     emptyMessage\<lparr>requestId := Some ''r1'', userId := Some ''u1'', response := Some ''hi there'',
                  latencyMs := Some 500, confidenceScore := Some (1 / 10)\<rparr>"

definition hallucinationFinding :: finding where
  "hallucinationFinding =
     \<lparr>ftype = HALLUCINATION, fseverity = High,
      fdescription = Reason (Some (VeryLowConfidence (1 / 10))), fevidence = Confidence (1 / 10)\<rparr>"

text \<open>The same response with \<^verbatim>\<open>tokenCount: 300, avgTokenCount: 100\<close> added.\<close>

definition mixedResponse :: message where
  "mixedResponse =
     emptyMessage\<lparr>requestId := Some ''r1'', userId := Some ''u1'', response := Some ''hi there'',
                  latencyMs := Some 500, confidenceScore := Some (1 / 10),
                  tokenCount := Some 300, avgTokenCount := Some 100\<rparr>"

definition tokenFinding :: finding where
  "tokenFinding =
     \<lparr>ftype = TOKEN_ANOMALY, fseverity = Medium,
      fdescription = Reason (Some TokenUsageAbove150), fevidence = Tokens 300 100\<rparr>"

text \<open>\<^verbatim>\<open>{ requestId: 'r1', response: 'hi there', latencyMs: l }\<close>\<close>

definition plainResponse :: "rat \<Rightarrow> message" where
  "plainResponse l =
     emptyMessage\<lparr>requestId := Some ''r1'', response := Some ''hi there'', latencyMs := Some l\<rparr>"

text \<open>The state after one response with a latency of 100 ms has been handled.\<close>

definition oneResponseWorld :: world where
  "oneResponseWorld = snd (handleResponse workingEnv (plainResponse 100) initialWorld)"

section \<open>Properties of the classifier\<close>

subsection \<open>The state of the regular expressions\<close>

lemma regExpExec_None: "regExpExec r s li = (None, li') \<Longrightarrow> li' = 0"
  by (auto simp: regExpExec_def split: if_splits option.splits)

lemma matchLoop_lastIndex: "snd (matchLoop r s li n) = 0"
proof (induction r s li n rule: matchLoop.induct)
  case (1 r s li n)
  show ?case
  proof (cases "regExpExec r s li")
    case (Pair m li')
    show ?thesis
    proof (cases m)
      case None
      with Pair show ?thesis by (simp add: matchLoop.simps [of r s li n] regExpExec_None)
    next
      case (Some bk)
      obtain b k where bk: "bk = (b, k)" by (cases bk)
      have "snd (matchLoop r s (if k = 0 then li' + 1 else li') (Suc n)) = 0"
        using 1 Pair Some bk by simp
      with Pair Some bk show ?thesis by (simp add: matchLoop.simps [of r s li n])
    qed
  qed
qed

lemma testAndCount_lastIndex: "snd (testAndCount r s li) = 0"
proof (cases "regExpExec r s li")
  case (Pair m li')
  show ?thesis
  proof (cases m)
    case None
    with Pair show ?thesis by (simp add: testAndCount_def test_g_def regExpExec_None)
  next
    case (Some bk)
    with Pair show ?thesis
      using matchLoop_lastIndex [of r s 0 0]
      by (auto simp: testAndCount_def test_g_def split: prod.splits)
  qed
qed

lemma testAndCount_lastIndexD: "testAndCount r s li = (c, l) \<Longrightarrow> l = 0"
  using testAndCount_lastIndex [of r s li] by simp

text \<open>Whatever the state before, a call on a non-empty text leaves every \<open>lastIndex\<close> at 0.\<close>

lemma detectPII_state: "s \<noteq> [] \<Longrightarrow> snd (detectPII s st) = freshRegExps"
  by (auto simp: detectPII_def freshRegExps_def split: prod.splits dest: testAndCount_lastIndexD)

lemma detectPII_fresh: "snd (detectPII s freshRegExps) = freshRegExps"
  by (cases "s = []") (simp_all add: detectPII_state, simp add: detectPII_def)

lemma analyzeMessage_fresh: "snd (analyzeMessage m freshRegExps) = freshRegExps"
proof -
  obtain a s1 where 1:
    "(if truthy (prompt m) then detectPII (orElse (prompt m) []) freshRegExps
      else ([], freshRegExps)) = (a, s1)"
    by (cases "(if truthy (prompt m) then detectPII (orElse (prompt m) []) freshRegExps
                else ([], freshRegExps))")
  then have s1: "s1 = freshRegExps"
    using detectPII_fresh [of "orElse (prompt m) []"] by (auto split: if_splits)
  obtain b s2 where 2:
    "(if truthy (response m) then detectPII (orElse (response m) []) s1 else ([], s1)) = (b, s2)"
    by (cases "(if truthy (response m) then detectPII (orElse (response m) []) s1 else ([], s1))")
  then have s2: "s2 = freshRegExps"
    using detectPII_fresh [of "orElse (response m) []"] s1 by (auto split: if_splits)
  show ?thesis
    unfolding analyzeMessage_def 1 using 2 s2 by simp
qed


subsection \<open>The findings of one type\<close>

lemma analyzeMessage_blocks:
  "\<exists>x y. fst (analyzeMessage m st) =
      piiInRequestAnomaly x @ piiInResponseAnomaly y @ toxicAnomaly m @ injectionAnomaly m
        @ tokenAnomaly m @ costAnomaly m @ latencyAnomaly m @ hallucinationAnomaly m
        @ errorAnomaly m"
  unfolding analyzeMessage_def by (simp split: prod.splits) blast

lemma filter_piiInRequestAnomaly:
  "filter (\<lambda>f. ftype f = t) (piiInRequestAnomaly x) =
     (if t = PII_IN_REQUEST then piiInRequestAnomaly x else [])"
  by (simp add: piiInRequestAnomaly_def)

lemma filter_piiInResponseAnomaly:
  "filter (\<lambda>f. ftype f = t) (piiInResponseAnomaly x) =
     (if t = PII_LEAKAGE then piiInResponseAnomaly x else [])"
  by (simp add: piiInResponseAnomaly_def)

lemma filter_toxicAnomaly:
  "filter (\<lambda>f. ftype f = t) (toxicAnomaly m) = (if t = TOXIC_CONTENT then toxicAnomaly m else [])"
  by (simp add: toxicAnomaly_def)

lemma filter_injectionAnomaly:
  "filter (\<lambda>f. ftype f = t) (injectionAnomaly m) =
     (if t = PROMPT_INJECTION then injectionAnomaly m else [])"
  by (simp add: injectionAnomaly_def)

lemma filter_tokenAnomaly:
  "filter (\<lambda>f. ftype f = t) (tokenAnomaly m) = (if t = TOKEN_ANOMALY then tokenAnomaly m else [])"
  by (simp add: tokenAnomaly_def Let_def split: option.splits)

lemma filter_costAnomaly:
  "filter (\<lambda>f. ftype f = t) (costAnomaly m) = (if t = COST_ANOMALY then costAnomaly m else [])"
  by (simp add: costAnomaly_def Let_def split: option.splits)

lemma filter_latencyAnomaly:
  "filter (\<lambda>f. ftype f = t) (latencyAnomaly m) =
     (if t = PERFORMANCE_DEGRADATION then latencyAnomaly m else [])"
  by (simp add: latencyAnomaly_def Let_def split: option.splits)

lemma filter_hallucinationAnomaly:
  "filter (\<lambda>f. ftype f = t) (hallucinationAnomaly m) =
     (if t = HALLUCINATION then hallucinationAnomaly m else [])"
  by (simp add: hallucinationAnomaly_def Let_def split: option.splits)

lemma filter_errorAnomaly:
  "filter (\<lambda>f. ftype f = t) (errorAnomaly m) = (if t = ERROR_SPIKE then errorAnomaly m else [])"
  by (simp add: errorAnomaly_def Let_def split: option.splits)

lemmas filter_blocks = filter_piiInRequestAnomaly filter_piiInResponseAnomaly filter_toxicAnomaly
  filter_injectionAnomaly filter_tokenAnomaly filter_costAnomaly filter_latencyAnomaly
  filter_hallucinationAnomaly filter_errorAnomaly

lemma latency_findings:
  "filter (\<lambda>f. ftype f = PERFORMANCE_DEGRADATION) (fst (analyzeMessage m st)) = latencyAnomaly m"
proof -
  obtain x y where "fst (analyzeMessage m st) =
      piiInRequestAnomaly x @ piiInResponseAnomaly y @ toxicAnomaly m @ injectionAnomaly m
        @ tokenAnomaly m @ costAnomaly m @ latencyAnomaly m @ hallucinationAnomaly m
        @ errorAnomaly m"
    using analyzeMessage_blocks by blast
  then show ?thesis by (simp add: filter_blocks)
qed

lemma token_findings:
  "filter (\<lambda>f. ftype f = TOKEN_ANOMALY) (fst (analyzeMessage m st)) = tokenAnomaly m"
proof -
  obtain x y where "fst (analyzeMessage m st) =
      piiInRequestAnomaly x @ piiInResponseAnomaly y @ toxicAnomaly m @ injectionAnomaly m
        @ tokenAnomaly m @ costAnomaly m @ latencyAnomaly m @ hallucinationAnomaly m
        @ errorAnomaly m"
    using analyzeMessage_blocks by blast
  then show ?thesis by (simp add: filter_blocks)
qed


subsection \<open>Latency\<close>

text \<open>
  Claim C4, as stated, fails: with a baseline of 1000 ms a latency of 3500 ms is a relative
  increase of exactly 2.5, which is not above 2.5, so the finding has severity medium and
  not high; a latency of 1600 ms is an increase of 0.6 and yields no finding at all.
\<close>

theorem latency_3500_is_medium_1600_is_silent:
  "fst (analyzeMessage (exampleResponse 3500) freshRegExps) =
     [\<lparr>ftype = PERFORMANCE_DEGRADATION, fseverity = Medium,
       fdescription = Reason (Some (LatencyElevated 3500 1000)),
       fevidence = Latency 3500 1000\<rparr>] \<and>
   fst (analyzeMessage (exampleResponse 1600) freshRegExps) = []"
  by code_simp

text \<open>
  Claim C4, amended.  With a baseline average latency of 1000 ms, the classifier yields
  exactly one PERFORMANCE_DEGRADATION finding of severity high when latencyMs is above
  3500, exactly one of severity medium when latencyMs is above 2500 and at most 3500, and no
  latency finding otherwise.  So latencyMs = 3500 yields severity medium, and latencyMs =
  1600 and latencyMs = 1200 yield no latency finding.
\<close>

theorem latency_baseline_1000:
  "latencyMs m = Some l \<Longrightarrow> avgLatencyMs m = Some 1000 \<Longrightarrow>
   severitiesOf PERFORMANCE_DEGRADATION (fst (analyzeMessage m st)) =
     (if l > 3500 then [High] else if l > 2500 then [Medium] else [])"
  by (simp add: severitiesOf_def latency_findings latencyAnomaly_def analyzeLatencyAnomaly_def
      orElse_def Let_def field_simps)

theorem latency_baseline_1000_witness:
  "severitiesOf PERFORMANCE_DEGRADATION (fst (analyzeMessage (exampleResponse 3500) freshRegExps))
     = [Medium] \<and>
   severitiesOf PERFORMANCE_DEGRADATION (fst (analyzeMessage (exampleResponse 1600) freshRegExps))
     = [] \<and>
   severitiesOf PERFORMANCE_DEGRADATION (fst (analyzeMessage (exampleResponse 1200) freshRegExps))
     = [] \<and>
   severitiesOf PERFORMANCE_DEGRADATION (fst (analyzeMessage (exampleResponse 3501) freshRegExps))
     = [High]"
  using latency_baseline_1000 [of "exampleResponse 3500" 3500 freshRegExps]
        latency_baseline_1000 [of "exampleResponse 1600" 1600 freshRegExps]
        latency_baseline_1000 [of "exampleResponse 1200" 1200 freshRegExps]
        latency_baseline_1000 [of "exampleResponse 3501" 3501 freshRegExps]
  by (simp add: exampleResponse_def emptyMessage_def)

subsection \<open>Token usage\<close>

lemma token_rule:
  "tokenCount m = Some t \<Longrightarrow>
   severitiesOf TOKEN_ANOMALY (fst (analyzeMessage m st)) =
     (case avgTokenCount m of
        None \<Rightarrow> []
      | Some a \<Rightarrow> if a \<noteq> 0 \<and> (t - a) / a > 15 / 10 then [Medium] else [])"
proof (cases "avgTokenCount m")
  case None
  then show ?thesis
    by (simp add: severitiesOf_def token_findings tokenAnomaly_def split: option.splits)
next
  case (Some a)
  assume t: "tokenCount m = Some t"
  have "(t - a) / a > 2 \<Longrightarrow> (t - a) / a > 15 / 10" by linarith
  then show ?thesis
    using Some t
    by (auto simp add: severitiesOf_def token_findings tokenAnomaly_def analyzeTokenUsage_def
        orElse_def Let_def)
qed

text \<open>
  Claim C5: the code at \<^verbatim>\<open>{ response: 'hi there', tokenCount: 400, avgTokenCount: 100 }\<close>.
  The relative increase is 3, above 2.0, and the finding has severity medium: the branch for
  an increase above 2.0 returns no severity, and \<^verbatim>\<open>analyzeMessage\<close> fills in
  \<^verbatim>\<open>'medium'\<close> where the latency rule fills in \<^verbatim>\<open>'high'\<close>.
\<close>

theorem token_usage_above_200_is_medium:
  "fst (analyzeMessage
          (emptyMessage\<lparr>response := Some ''hi there'', tokenCount := Some 400,
                        avgTokenCount := Some 100\<rparr>) freshRegExps) =
     [\<lparr>ftype = TOKEN_ANOMALY, fseverity = Medium, fdescription = Reason (Some TokenUsageAbove200),
       fevidence = Tokens 400 100\<rparr>]"
  by code_simp

subsection \<open>Cost\<close>




section \<open>Properties of the incident manager\<close>

subsection \<open>The safety score\<close>




subsection \<open>Ingest of a request when the transport fails\<close>

lemmas effect_defs = newDate_def newUuid_def consoleError_def producerSend_def sendOrLog_def

text \<open>
  Claim C8, as stated, fails: when the transport rejects the request event,
  \<^verbatim>\<open>handleRequest\<close> throws the transport's error to its caller.
\<close>

theorem handleRequest_fails_when_publish_fails:
  "fst (handleRequest failingEnv exampleRequest initialWorld)
     = Inl (KafkaError ''broker unreachable'')"
  by (simp add: handleRequest_def publishRequest_def effect_defs failingEnv_def initialWorld_def
      Let_def)

text \<open>
  Claim C8, amended.  If publishing the request event to the transport fails during
  \<^verbatim>\<open>handleRequest\<close>, the call fails with the transport's error, after the error has been
  written to the error console by the publisher and by the handler; the retained
  collections are unaffected (the request is not appended) and nothing reaches the
  transport.
\<close>

theorem handleRequest_publish_failure:
  "sendFails e (sendCalls w) = Some msg \<Longrightarrow>
   (\<exists>w'. handleRequest e requestData w = (Inl (KafkaError msg), w') \<and>
         requests w' = requests w \<and> responses w' = responses w \<and>
         incidents w' = incidents w \<and> heap w' = heap w \<and> kafka w' = kafka w \<and>
         stderr w' = stderr w @ [''Failed to publish request: '' @ msg,
                                 ''Failed to handle request: '' @ msg])"
  by (simp add: handleRequest_def publishRequest_def effect_defs errorMessage_def Let_def)

theorem handleRequest_publish_failure_witness:
  "sendFails failingEnv (sendCalls initialWorld) = Some ''broker unreachable'' \<and>
   (\<exists>w'. handleRequest failingEnv exampleRequest initialWorld
            = (Inl (KafkaError ''broker unreachable''), w') \<and>
         requests w' = [] \<and> responses w' = [] \<and> incidents w' = [] \<and> heap w' = [] \<and>
         kafka w' = [] \<and>
         stderr w' = [''Failed to publish request: broker unreachable'',
                      ''Failed to handle request: broker unreachable''])"
proof -
  have h: "sendFails failingEnv (sendCalls initialWorld) = Some ''broker unreachable''"
    by (simp add: failingEnv_def)
  show ?thesis
    using h handleRequest_publish_failure [OF h, of exampleRequest]
    by (simp add: initialWorld_def)
qed

subsection \<open>The effect of publishing findings\<close>

lemma shouldAlert_escalates: "shouldAlert s = escalates s"
  by (cases s) (simp_all add: shouldAlert_def escalates_def)

lemma publishAnomaly_effect:
  "publishAnomaly e a w = (r, w') \<Longrightarrow>
     requests w' = requests w \<and> responses w' = responses w \<and> regExps w' = regExps w \<and>
     (case r of
        Inl err \<Rightarrow> heap w' = heap w \<and> incidents w' = incidents w \<and> kafka w' = kafka w
      | Inr x \<Rightarrow>
          (\<exists>m. kafka w' = kafka w @ [m] \<and> published m = expectedPublication a) \<and>
          (if escalates (fseverity a)
           then (\<exists>inc. heap w' = heap w @ [inc] \<and> opened inc = expectedIncident a \<and>
                       incidents w' = incidents w @ [length (heap w)] \<and> x = Some (length (heap w)))
           else heap w' = heap w \<and> incidents w' = incidents w \<and> x = None))"
  by (cases "sendFails e (sendCalls w)")
     (auto simp add: publishAnomaly_def publishAlert_def producerPublishAnomaly_def effect_defs
        shouldAlert_escalates published_def expectedPublication_def opened_def
        expectedIncident_def Let_def split: if_splits)

text \<open>
  The loop over the findings: it processes a prefix of the list, all of it when it returns
  normally.  Each processed finding is published once; each processed escalating finding
  has its incident appended.
\<close>

lemma publishAnomalies_effect:
  "publishAnomalies e as w = (r, w') \<Longrightarrow>
     \<exists>k new msgs.
        k \<le> length as \<and> (r = Inr () \<longrightarrow> k = length as) \<and>
        heap w' = heap w @ new \<and>
        incidents w' = incidents w @ [length (heap w)..<length (heap w) + length new] \<and>
        map opened new = map expectedIncident (filter (\<lambda>a. escalates (fseverity a)) (take k as)) \<and>
        kafka w' = kafka w @ msgs \<and>
        map published msgs = map expectedPublication (take k as) \<and>
        requests w' = requests w \<and> responses w' = responses w \<and> regExps w' = regExps w"
proof (induction as arbitrary: w)
  case Nil
  then show ?case by auto
next
  case (Cons a as)
  obtain r1 w1 where 1: "publishAnomaly e a w = (r1, w1)"
    by (cases "publishAnomaly e a w")
  note eff = publishAnomaly_effect [OF 1]
  show ?case
  proof (cases r1)
    case (Inl err)
    with 1 Cons.prems have "w' = w1" by simp
    with eff Inl 1 Cons.prems show ?thesis
      by (intro exI [of _ 0] exI [of _ "[]"]) auto
  next
    case (Inr x)
    with 1 Cons.prems have rest: "publishAnomalies e as w1 = (r, w')" by simp
    from Cons.IH [OF rest] obtain k new msgs where ih:
      "k \<le> length as" "r = Inr () \<longrightarrow> k = length as"
      "heap w' = heap w1 @ new"
      "incidents w' = incidents w1 @ [length (heap w1)..<length (heap w1) + length new]"
      "map opened new = map expectedIncident (filter (\<lambda>a. escalates (fseverity a)) (take k as))"
      "kafka w' = kafka w1 @ msgs"
      "map published msgs = map expectedPublication (take k as)"
      "requests w' = requests w1" "responses w' = responses w1" "regExps w' = regExps w1"
      by blast
    from eff Inr obtain m where m: "kafka w1 = kafka w @ [m]" "published m = expectedPublication a"
      by auto
    have k: "Suc k \<le> length (a # as)" "r = Inr () \<longrightarrow> Suc k = length (a # as)"
      using ih(1,2) by simp_all
    have msgs: "kafka w' = kafka w @ (m # msgs)"
      "map published (m # msgs) = map expectedPublication (take (Suc k) (a # as))"
      using ih(6,7) m by simp_all
    have frame: "requests w' = requests w" "responses w' = responses w" "regExps w' = regExps w"
      using ih(8,9,10) eff by simp_all
    show ?thesis
    proof (cases "escalates (fseverity a)")
      case True
      with eff Inr obtain inc where inc: "heap w1 = heap w @ [inc]" "opened inc = expectedIncident a"
        "incidents w1 = incidents w @ [length (heap w)]"
        by auto
      have h: "heap w' = heap w @ (inc # new)"
        using ih(3) inc(1) by simp
      have "incidents w' = incidents w @ [length (heap w)]
                @ [Suc (length (heap w))..<Suc (length (heap w)) + length new]"
        using ih(4) inc(1,3) by simp
      also have "[length (heap w)] @ [Suc (length (heap w))..<Suc (length (heap w)) + length new]
                 = [length (heap w)..<length (heap w) + length (inc # new)]"
        using upt_conv_Cons [of "length (heap w)" "length (heap w) + length (inc # new)"]
        by (simp del: upt_Suc)
      finally have i:
        "incidents w' = incidents w @ [length (heap w)..<length (heap w) + length (inc # new)]" .
      have o: "map opened (inc # new) =
                 map expectedIncident (filter (\<lambda>a. escalates (fseverity a)) (take (Suc k) (a # as)))"
        using ih(5) inc(2) True by simp
      from k h i o msgs frame show ?thesis by blast
    next
      case False
      with eff Inr have same: "heap w1 = heap w" "incidents w1 = incidents w"
        by auto
      have h: "heap w' = heap w @ new"
        using ih(3) same by simp
      have i: "incidents w' = incidents w @ [length (heap w)..<length (heap w) + length new]"
        using ih(4) by (simp only: same)
      have o: "map opened new =
                 map expectedIncident (filter (\<lambda>a. escalates (fseverity a)) (take (Suc k) (a # as)))"
        using ih(5) False by simp
      from k h i o msgs frame show ?thesis by blast
    qed
  qed
qed

lemma analysisPayload_responses:
  "responses w1 = responses w2 \<Longrightarrow> analysisPayload m w1 = analysisPayload m w2"
  by (simp add: analysisPayload_def getAverageMetrics_def)

lemma withIds_fields [simp]:
  "ftype (withIds m f) = ftype f" "fseverity (withIds m f) = fseverity f"
  "fdescription (withIds m f) = fdescription f"
  by (simp_all add: withIds_def)

lemma expected_withIds [simp]:
  "expectedIncident (withIds m f) = expectedIncident f"
  "expectedPublication (withIds m f) = expectedPublication f"
  by (simp_all add: expectedIncident_def expectedPublication_def)

lemma filter_take_withIds:
  "filter (\<lambda>a. escalates (fseverity a)) (take k (map (withIds m) fs)) =
   map (withIds m) (filter (\<lambda>f. escalates (fseverity f)) (take k fs))"
  by (simp add: take_map filter_map comp_def)

lemma handleResponse_rejected:
  "sendFails e (sendCalls w) = Some msg \<Longrightarrow> handleResponse e m w = (r, w') \<Longrightarrow>
   r = Inl (KafkaError msg) \<and> requests w' = requests w \<and> responses w' = responses w \<and>
   heap w' = heap w \<and> incidents w' = incidents w \<and> kafka w' = kafka w \<and> regExps w' = regExps w"
  by (auto simp add: handleResponse_def publishResponse_def effect_defs Let_def)

lemma handleResponse_accepted:
  assumes ok: "sendFails e (sendCalls w) = None" and run: "handleResponse e m w = (r, w')"
  shows "\<exists>k new rm msgs.
        k \<le> length (findingsOf e m w) \<and>
        (returned r \<longrightarrow> k = length (findingsOf e m w) \<and> r = Inr (length (findingsOf e m w))) \<and>
        requests w' = requests w \<and>
        responses w' = responses w @ [recordedResponse e m w] \<and>
        heap w' = heap w @ new \<and>
        incidents w' = incidents w @ [length (heap w)..<length (heap w) + length new] \<and>
        map opened new =
          map expectedIncident (filter (\<lambda>f. escalates (fseverity f)) (take k (findingsOf e m w))) \<and>
        kafka w' = kafka w @ rm # msgs \<and> msgTopic rm = LLM_RESPONSES \<and>
        map published msgs = map expectedPublication (take k (findingsOf e m w)) \<and>
        regExps w' = snd (analyzeMessage (classified e m w) (regExps w))"
proof -
  define t where "t = clock e (clockCalls w)"
  define rm where "rm = \<lparr>msgTopic = LLM_RESPONSES,
      msgKey = (case rs_requestId (responsePayloadOf m t) of None \<Rightarrow> KeyUndefined | Some r \<Rightarrow> KeyString r),
      msgValue = ResponseEvent (responsePayloadOf m t),
      msgTimestamp = clock e (Suc (clockCalls w))\<rparr>"
  define w3 where "w3 = w\<lparr>clockCalls := Suc (Suc (clockCalls w)), kafka := kafka w @ [rm],
      sendCalls := Suc (sendCalls w), responses := responses w @ [responsePayloadOf m t]\<rparr>"
  obtain fs st where am: "analyzeMessage (analysisPayload m w3) (regExps w3) = (fs, st)"
    by (cases "analyzeMessage (analysisPayload m w3) (regExps w3)")
  have "analysisPayload m w3 = classified e m w"
    unfolding classified_def
    by (rule analysisPayload_responses) (simp add: w3_def recordedResponse_def t_def)
  moreover have "regExps w3 = regExps w" by (simp add: w3_def)
  ultimately have fs: "fs = findingsOf e m w"
    and st: "st = snd (analyzeMessage (classified e m w) (regExps w))"
    using am by (simp_all add: findingsOf_def)
  obtain r4 w4 where loop: "publishAnomalies e (map (withIds m) fs) (w3\<lparr>regExps := st\<rparr>) = (r4, w4)"
    by (cases "publishAnomalies e (map (withIds m) fs) (w3\<lparr>regExps := st\<rparr>)")
  have res: "(r, w') = (case r4 of Inl err \<Rightarrow> (Inl err, consoleError ''Failed to handle response:'' err w4)
                           | Inr u \<Rightarrow> (Inr (length fs), w4))"
    using run ok am loop
    by (simp add: handleResponse_def publishResponse_def effect_defs Let_def w3_def rm_def t_def
        split: sum.splits)
  from publishAnomalies_effect [OF loop] obtain k new msgs where eff:
    "k \<le> length (map (withIds m) fs)" "r4 = Inr () \<longrightarrow> k = length (map (withIds m) fs)"
    "heap w4 = heap (w3\<lparr>regExps := st\<rparr>) @ new"
    "incidents w4 = incidents (w3\<lparr>regExps := st\<rparr>)
        @ [length (heap (w3\<lparr>regExps := st\<rparr>))..<length (heap (w3\<lparr>regExps := st\<rparr>)) + length new]"
    "map opened new = map expectedIncident
        (filter (\<lambda>a. escalates (fseverity a)) (take k (map (withIds m) fs)))"
    "kafka w4 = kafka (w3\<lparr>regExps := st\<rparr>) @ msgs"
    "map published msgs = map expectedPublication (take k (map (withIds m) fs))"
    "requests w4 = requests (w3\<lparr>regExps := st\<rparr>)" "responses w4 = responses (w3\<lparr>regExps := st\<rparr>)"
    "regExps w4 = regExps (w3\<lparr>regExps := st\<rparr>)"
    by blast
  have same: "heap w' = heap w4" "incidents w' = incidents w4" "kafka w' = kafka w4"
    "requests w' = requests w4" "responses w' = responses w4" "regExps w' = regExps w4"
    using res by (auto simp add: consoleError_def split: sum.splits)
  have ret: "returned r \<longrightarrow> r4 = Inr () \<and> r = Inr (length fs)"
    using res by (auto simp add: returned_def split: sum.splits)
  have 1: "k \<le> length (findingsOf e m w)" using eff(1) fs by simp
  have 2: "returned r \<longrightarrow> k = length (findingsOf e m w) \<and> r = Inr (length (findingsOf e m w))"
    using ret eff(2) fs by simp
  have 3: "requests w' = requests w" "responses w' = responses w @ [recordedResponse e m w]"
    using same eff(8,9) by (simp_all add: w3_def recordedResponse_def t_def)
  have 4: "heap w' = heap w @ new"
    "incidents w' = incidents w @ [length (heap w)..<length (heap w) + length new]"
    using same eff(3,4) by (simp_all add: w3_def)
  have 5: "map opened new =
          map expectedIncident (filter (\<lambda>f. escalates (fseverity f)) (take k (findingsOf e m w)))"
    using eff(5) fs by (simp add: filter_take_withIds comp_def)
  have 6: "kafka w' = kafka w @ rm # msgs" "msgTopic rm = LLM_RESPONSES"
    using same eff(6) by (simp_all add: w3_def rm_def)
  have 7: "map published msgs = map expectedPublication (take k (findingsOf e m w))"
    using eff(7) fs by (simp add: take_map comp_def)
  have 8: "regExps w' = snd (analyzeMessage (classified e m w) (regExps w))"
    using same eff(10) st by simp
  from 1 2 3 4 5 6 7 8 show ?thesis by blast
qed

lemma publishAnomaly_accepted:
  "sendFails e (sendCalls w) = None \<Longrightarrow>
   returned (fst (publishAnomaly e a w)) \<and> sendCalls (snd (publishAnomaly e a w)) = Suc (sendCalls w)"
  by (simp add: publishAnomaly_def publishAlert_def producerPublishAnomaly_def effect_defs
      returned_def Let_def)

lemma publishAnomalies_accepted:
  "\<forall>n. sendFails e n = None \<Longrightarrow> publishAnomalies e as w = (r, w') \<Longrightarrow> r = Inr ()"
proof (induction as arbitrary: w)
  case Nil
  then show ?case by simp
next
  case (Cons a as)
  obtain r1 w1 where 1: "publishAnomaly e a w = (r1, w1)" by (cases "publishAnomaly e a w")
  from Cons.prems have "sendFails e (sendCalls w) = None" by simp
  from publishAnomaly_accepted [OF this, of a] 1 obtain x where "r1 = Inr x"
    by (cases r1) (simp_all add: returned_def)
  with 1 Cons show ?case by simp
qed

text \<open>When the transport accepts every message, \<^verbatim>\<open>handleResponse\<close> returns normally.\<close>

lemma handleResponse_returns:
  assumes "\<forall>n. sendFails e n = None"
  shows "fst (handleResponse e m w) = Inr (length (findingsOf e m w))"
proof -
  obtain r w' where run: "handleResponse e m w = (r, w')" by (cases "handleResponse e m w")
  from assms have ok: "sendFails e (sendCalls w) = None" by simp
  have "returned r"
    using run ok
    by (auto simp add: handleResponse_def publishResponse_def effect_defs Let_def returned_def
        split: prod.splits sum.splits dest: publishAnomalies_accepted [OF assms])
  with handleResponse_accepted [OF ok run] run show ?thesis by auto
qed

lemma alerts_of_publications:
  "filter (\<lambda>p. fst p = LLM_ALERTS) (map expectedPublication fs) =
   map expectedPublication (filter (\<lambda>f. escalates (fseverity f)) fs)"
  by (induction fs) (simp_all add: expectedPublication_def)

lemma fst_published: "fst (published k) = msgTopic k"
  by (simp add: published_def split: kafkaValue.splits)

lemma handleResponse_recorded:
  assumes run: "handleResponse e m w = (Inr n, w')"
  shows "\<exists>new rm msgs.
        n = length (findingsOf e m w) \<and>
        requests w' = requests w \<and>
        responses w' = responses w @ [recordedResponse e m w] \<and>
        heap w' = heap w @ new \<and>
        incidents w' = incidents w @ [length (heap w)..<length (heap w) + length new] \<and>
        map opened new =
          map expectedIncident (filter (\<lambda>f. escalates (fseverity f)) (findingsOf e m w)) \<and>
        kafka w' = kafka w @ rm # msgs \<and> msgTopic rm = LLM_RESPONSES \<and>
        map published msgs = map expectedPublication (findingsOf e m w) \<and>
        regExps w' = snd (analyzeMessage (classified e m w) (regExps w))"
proof -
  have ok: "sendFails e (sendCalls w) = None"
  proof (cases "sendFails e (sendCalls w)")
    case None
    then show ?thesis .
  next
    case (Some msg)
    from handleResponse_rejected [OF Some run] show ?thesis by simp
  qed
  from handleResponse_accepted [OF ok run] show ?thesis
    by (auto simp add: returned_def)
qed

lemma handleResponse_effect:
  assumes run: "handleResponse e m w = (r, w')"
  shows "\<exists>k new pre msgs.
        k \<le> length (findingsOf e m w) \<and>
        (returned r \<longrightarrow> k = length (findingsOf e m w) \<and> r = Inr (length (findingsOf e m w))) \<and>
        heap w' = heap w @ new \<and>
        incidents w' = incidents w @ [length (heap w)..<length (heap w) + length new] \<and>
        map opened new =
          map expectedIncident (filter (\<lambda>f. escalates (fseverity f)) (take k (findingsOf e m w))) \<and>
        kafka w' = kafka w @ pre @ msgs \<and>
        map msgTopic pre = (if sendFails e (sendCalls w) = None then [LLM_RESPONSES] else []) \<and>
        map published msgs = map expectedPublication (take k (findingsOf e m w))"
proof (cases "sendFails e (sendCalls w)")
  case None
  from handleResponse_accepted [OF None run] obtain k new rm msgs where h:
    "k \<le> length (findingsOf e m w)"
    "returned r \<longrightarrow> k = length (findingsOf e m w) \<and> r = Inr (length (findingsOf e m w))"
    "heap w' = heap w @ new"
    "incidents w' = incidents w @ [length (heap w)..<length (heap w) + length new]"
    "map opened new =
       map expectedIncident (filter (\<lambda>f. escalates (fseverity f)) (take k (findingsOf e m w)))"
    "kafka w' = kafka w @ rm # msgs" "msgTopic rm = LLM_RESPONSES"
    "map published msgs = map expectedPublication (take k (findingsOf e m w))"
    by blast
  have "kafka w' = kafka w @ [rm] @ msgs" "map msgTopic [rm] = [LLM_RESPONSES]"
    using h(6,7) by simp_all
  with h None show ?thesis
    by (intro exI [of _ k] exI [of _ new] exI [of _ "[rm]"] exI [of _ msgs]) simp
next
  case (Some msg)
  from handleResponse_rejected [OF Some run] Some show ?thesis
    by (intro exI [of _ 0] exI [of _ "[]"]) (simp add: returned_def)
qed

subsection \<open>The example responses\<close>

lemma analyze_lowConfidence:
  "analyzeMessage (lowConfidenceResponse\<lparr>avgLatencyMs := Some 500\<rparr>) freshRegExps
     = ([hallucinationFinding], freshRegExps)"
  by code_simp

lemma classified_lowConfidence:
  "clockCalls w = 0 \<Longrightarrow> responses w = [] \<Longrightarrow> classified e lowConfidenceResponse w = lowConfidenceResponse\<lparr>avgLatencyMs := Some 500\<rparr>"
  by (simp add: classified_def analysisPayload_def getAverageMetrics_def latencies_def recordedResponse_def
      responsePayloadOf_def lowConfidenceResponse_def emptyMessage_def truthyNum_def orElse_def)

lemma findings_lowConfidence:
  "findingsOf e lowConfidenceResponse initialWorld = [hallucinationFinding]"
  by (simp add: findingsOf_def classified_lowConfidence analyze_lowConfidence initialWorld_def)

lemma analysisPayload_lowConfidence:
  "responses w = [responsePayloadOf lowConfidenceResponse t] \<Longrightarrow>
   analysisPayload lowConfidenceResponse w = lowConfidenceResponse\<lparr>avgLatencyMs := Some 500\<rparr>"
  by (simp add: analysisPayload_def getAverageMetrics_def latencies_def
      responsePayloadOf_def lowConfidenceResponse_def emptyMessage_def truthyNum_def orElse_def)

lemma analyze_mixed:
  "analyzeMessage (mixedResponse\<lparr>avgLatencyMs := Some 500\<rparr>) freshRegExps
     = ([tokenFinding, hallucinationFinding], freshRegExps)"
  by code_simp

lemma classified_mixed:
  "responses w = [] \<Longrightarrow> classified e mixedResponse w = mixedResponse\<lparr>avgLatencyMs := Some 500\<rparr>"
  by (simp add: classified_def analysisPayload_def getAverageMetrics_def latencies_def recordedResponse_def
      responsePayloadOf_def mixedResponse_def emptyMessage_def truthyNum_def orElse_def)

lemma findings_mixed:
  "findingsOf e mixedResponse initialWorld = [tokenFinding, hallucinationFinding]"
  by (simp add: findingsOf_def classified_mixed analyze_mixed initialWorld_def)

lemma workingEnv_accepts: "\<forall>n. sendFails workingEnv n = None"
  by (simp add: workingEnv_def)

lemmas run_defs = handleResponse_def publishResponse_def publishAnomaly_def publishAlert_def
  producerPublishAnomaly_def effect_defs shouldAlert_def withIds_def Let_def

lemma handleResponse_flaky:
  "fst (handleResponse flakyEnv lowConfidenceResponse initialWorld)
     = Inl (KafkaError ''broker unreachable'') \<and>
   incidents (snd (handleResponse flakyEnv lowConfidenceResponse initialWorld)) = [] \<and>
   heap (snd (handleResponse flakyEnv lowConfidenceResponse initialWorld)) = [] \<and>
   map msgTopic (kafka (snd (handleResponse flakyEnv lowConfidenceResponse initialWorld))) = [LLM_RESPONSES]"
  by (simp add: run_defs initialWorld_def flakyEnv_def
      analysisPayload_lowConfidence analyze_lowConfidence hallucinationFinding_def)

subsection \<open>Escalation to incidents\<close>

text \<open>
  Claim C1, as stated, fails when the transport rejects the alert: the response
  \<^verbatim>\<open>{ requestId: 'r1', userId: 'u1', response: 'hi there', latencyMs: 500, confidenceScore: 0.1 }\<close>
  yields a finding of severity high, \<^verbatim>\<open>publishAlert\<close> throws, and \<^verbatim>\<open>handleResponse\<close> throws
  in turn without having created an incident.
\<close>

theorem alert_rejected_no_incident:
  "map fseverity (findingsOf flakyEnv lowConfidenceResponse initialWorld) = [High] \<and>
   fst (handleResponse flakyEnv lowConfidenceResponse initialWorld)
     = Inl (KafkaError ''broker unreachable'') \<and>
   incidents (snd (handleResponse flakyEnv lowConfidenceResponse initialWorld)) = [] \<and>
   heap (snd (handleResponse flakyEnv lowConfidenceResponse initialWorld)) = []"
  using handleResponse_flaky
  by (simp add: findings_lowConfidence hallucinationFinding_def)

text \<open>
  Claim C1, amended.  Let \<open>k\<close> be the number of findings that \<^verbatim>\<open>handleResponse\<close> has published
  when it ends: all of them when it returns normally (it then returns their number), and
  those before the first publish that the transport rejects when it throws.  The incidents
  it has created and retained are, in the order of the findings, exactly one incident with
  status open (and no close time) for every one of these \<open>k\<close> findings whose severity is high
  or critical, and none for any other finding; the alert events it has published are exactly
  one per such finding, carrying priority urgent when the severity is critical and priority
  high otherwise.  Earlier incidents are untouched.
\<close>

theorem escalation_of_findings:
  assumes "handleResponse e m w = (r, w')"
  shows "\<exists>k \<le> length (findingsOf e m w).
     (returned r \<longrightarrow> k = length (findingsOf e m w) \<and> r = Inr (length (findingsOf e m w))) \<and>
     take (length (heap w)) (heap w') = heap w \<and>
     incidents w' = incidents w @ [length (heap w)..<length (heap w')] \<and>
     map opened (drop (length (heap w)) (heap w')) =
       map (\<lambda>f. (ftype f, fseverity f, fdescription f, Open, None))
           (filter (\<lambda>f. escalates (fseverity f)) (take k (findingsOf e m w))) \<and>
     filter (\<lambda>p. fst p = LLM_ALERTS) (map published (drop (length (kafka w)) (kafka w'))) =
       map (\<lambda>f. (LLM_ALERTS, Some (ftype f), Some (fseverity f),
                 Some (if fseverity f = Critical then Urgent else HighPriority)))
           (filter (\<lambda>f. escalates (fseverity f)) (take k (findingsOf e m w)))"
proof -
  from handleResponse_effect [OF assms] obtain k new pre msgs where h:
    "k \<le> length (findingsOf e m w)"
    "returned r \<longrightarrow> k = length (findingsOf e m w) \<and> r = Inr (length (findingsOf e m w))"
    "heap w' = heap w @ new"
    "incidents w' = incidents w @ [length (heap w)..<length (heap w) + length new]"
    "map opened new =
       map expectedIncident (filter (\<lambda>f. escalates (fseverity f)) (take k (findingsOf e m w)))"
    "kafka w' = kafka w @ pre @ msgs"
    "map msgTopic pre = (if sendFails e (sendCalls w) = None then [LLM_RESPONSES] else [])"
    "map published msgs = map expectedPublication (take k (findingsOf e m w))"
    by blast
  have "map fst (map published pre) = map msgTopic pre"
    by (simp add: fst_published comp_def)
  with h(7) have "\<forall>p \<in> set (map published pre). fst p \<noteq> LLM_ALERTS"
    by (cases pre) (auto split: if_splits)
  then have pre: "filter (\<lambda>p. fst p = LLM_ALERTS) (map published pre) = []"
    by (simp only: filter_empty_conv)
  have a: "filter (\<lambda>p. fst p = LLM_ALERTS) (map published (drop (length (kafka w)) (kafka w'))) =
           map expectedPublication (filter (\<lambda>f. escalates (fseverity f)) (take k (findingsOf e m w)))"
    using h(6,8) pre alerts_of_publications [of "take k (findingsOf e m w)"]
    by (simp del: filter_map)
  have b: "map expectedPublication (filter (\<lambda>f. escalates (fseverity f)) (take k (findingsOf e m w))) =
       map (\<lambda>f. (LLM_ALERTS, Some (ftype f), Some (fseverity f),
                 Some (if fseverity f = Critical then Urgent else HighPriority)))
           (filter (\<lambda>f. escalates (fseverity f)) (take k (findingsOf e m w)))"
    by (rule map_cong) (simp_all add: expectedPublication_def)
  have c: "map expectedIncident (filter (\<lambda>f. escalates (fseverity f)) (take k (findingsOf e m w))) =
       map (\<lambda>f. (ftype f, fseverity f, fdescription f, Open, None))
           (filter (\<lambda>f. escalates (fseverity f)) (take k (findingsOf e m w)))"
    by (rule map_cong) (simp_all add: expectedIncident_def)
  have d: "take (length (heap w)) (heap w') = heap w"
       "drop (length (heap w)) (heap w') = new"
       "length (heap w') = length (heap w) + length new"
    using h(3) by simp_all
  show ?thesis
    apply (rule exI [of _ k])
    using h(1,2,4,5) a b c d apply simp
    done
qed

theorem escalation_of_findings_witness:
  "returned (fst (handleResponse workingEnv mixedResponse initialWorld)) \<and>
   map fseverity (findingsOf workingEnv mixedResponse initialWorld) = [Medium, High] \<and>
   incidents (snd (handleResponse workingEnv mixedResponse initialWorld)) = [0] \<and>
   map opened (heap (snd (handleResponse workingEnv mixedResponse initialWorld))) =
     [(HALLUCINATION, High, Reason (Some (VeryLowConfidence (1 / 10))), Open, None)] \<and>
   filter (\<lambda>p. fst p = LLM_ALERTS)
     (map published (kafka (snd (handleResponse workingEnv mixedResponse initialWorld)))) =
     [(LLM_ALERTS, Some HALLUCINATION, Some High, Some HighPriority)]"
proof -
  let ?w' = "snd (handleResponse workingEnv mixedResponse initialWorld)"
  have r: "fst (handleResponse workingEnv mixedResponse initialWorld) = Inr 2"
    using handleResponse_returns [OF workingEnv_accepts, of mixedResponse initialWorld]
    by (simp add: findings_mixed)
  then have ret: "returned (fst (handleResponse workingEnv mixedResponse initialWorld))"
    by (simp add: returned_def)
  have run: "handleResponse workingEnv mixedResponse initialWorld
     = (fst (handleResponse workingEnv mixedResponse initialWorld), ?w')"
    by simp
  have init: "heap initialWorld = []" "incidents initialWorld = []" "kafka initialWorld = []"
    by (simp_all add: initialWorld_def)
  from escalation_of_findings [OF run] obtain k where
    kk: "returned (fst (handleResponse workingEnv mixedResponse initialWorld)) \<longrightarrow>
         k = length (findingsOf workingEnv mixedResponse initialWorld) \<and>
         fst (handleResponse workingEnv mixedResponse initialWorld) =
           Inr (length (findingsOf workingEnv mixedResponse initialWorld))"
    and i: "incidents ?w' = incidents initialWorld @ [length (heap initialWorld)..<length (heap ?w')]"
    and o': "map opened (drop (length (heap initialWorld)) (heap ?w')) =
       map (\<lambda>f. (ftype f, fseverity f, fdescription f, Open, None))
           (filter (\<lambda>f. escalates (fseverity f)) (take k (findingsOf workingEnv mixedResponse initialWorld)))"
    and a': "filter (\<lambda>p. fst p = LLM_ALERTS) (map published (drop (length (kafka initialWorld)) (kafka ?w'))) =
       map (\<lambda>f. (LLM_ALERTS, Some (ftype f), Some (fseverity f),
                 Some (if fseverity f = Critical then Urgent else HighPriority)))
           (filter (\<lambda>f. escalates (fseverity f)) (take k (findingsOf workingEnv mixedResponse initialWorld)))"
    by blast
  from kk ret have k: "k = 2"
    by (simp add: findings_mixed)
  have o: "map opened (heap ?w') =
     [(HALLUCINATION, High, Reason (Some (VeryLowConfidence (1 / 10))), Open, None)]"
    using o' k init
    by (simp add: findings_mixed tokenFinding_def hallucinationFinding_def escalates_def)
  then have "length (map opened (heap ?w')) = 1" by simp
  then have len: "length (heap ?w') = 1" by simp
  have i': "incidents ?w' = [0]"
    using i init len by simp
  have a: "filter (\<lambda>p. fst p = LLM_ALERTS) (map published (kafka ?w')) =
     [(LLM_ALERTS, Some HALLUCINATION, Some High, Some HighPriority)]"
    using a' k init
    by (simp add: findings_mixed tokenFinding_def hallucinationFinding_def escalates_def)
  from ret o i' a show ?thesis
    by (simp add: findings_mixed tokenFinding_def hallucinationFinding_def)
qed

subsection \<open>Publication of findings\<close>

text \<open>
  Claim C2, as stated, fails: the finding of severity high that the low-confidence response
  yields is published to the alert topic only.  Nothing is published to the anomaly topic.
\<close>

theorem high_finding_not_on_anomaly_topic:
  "map fseverity (findingsOf workingEnv lowConfidenceResponse initialWorld) = [High] \<and>
   fst (handleResponse workingEnv lowConfidenceResponse initialWorld) = Inr 1 \<and>
   map msgTopic (kafka (snd (handleResponse workingEnv lowConfidenceResponse initialWorld)))
     = [LLM_RESPONSES, LLM_ALERTS]"
proof -
  have "fst (handleResponse workingEnv lowConfidenceResponse initialWorld) = Inr 1 \<and>
   map msgTopic (kafka (snd (handleResponse workingEnv lowConfidenceResponse initialWorld)))
     = [LLM_RESPONSES, LLM_ALERTS]"
    by (simp add: run_defs initialWorld_def workingEnv_def
      analysisPayload_lowConfidence analyze_lowConfidence hallucinationFinding_def)
  then show ?thesis
    by (simp add: findings_lowConfidence hallucinationFinding_def)
qed

text \<open>
  Claim C2, amended.  Let \<open>k\<close> be the number of findings that \<^verbatim>\<open>handleResponse\<close> has published
  when it ends: all of them when it returns normally, and those before the first publish that
  the transport rejects when it throws.  It has published the response event (unless the
  transport rejected that one) followed by exactly one event for each of these \<open>k\<close> findings,
  in the order of the findings: an alert event on the alert topic for a finding of severity
  high or critical, and an anomaly event on the anomaly topic for every other finding.
\<close>

theorem publication_of_findings:
  assumes "handleResponse e m w = (r, w')"
  shows "\<exists>k pre msgs. k \<le> length (findingsOf e m w) \<and>
     (returned r \<longrightarrow> k = length (findingsOf e m w)) \<and>
     kafka w' = kafka w @ pre @ msgs \<and>
     map msgTopic pre = (if sendFails e (sendCalls w) = None then [LLM_RESPONSES] else []) \<and>
     map published msgs =
       map (\<lambda>f. if escalates (fseverity f)
                then (LLM_ALERTS, Some (ftype f), Some (fseverity f),
                      Some (if fseverity f = Critical then Urgent else HighPriority))
                else (LLM_ANOMALIES, Some (ftype f), Some (fseverity f), None))
           (take k (findingsOf e m w))"
proof -
  from handleResponse_effect [OF assms] obtain k pre msgs where h:
    "k \<le> length (findingsOf e m w)"
    "returned r \<longrightarrow> k = length (findingsOf e m w) \<and> r = Inr (length (findingsOf e m w))"
    "kafka w' = kafka w @ pre @ msgs"
    "map msgTopic pre = (if sendFails e (sendCalls w) = None then [LLM_RESPONSES] else [])"
    "map published msgs = map expectedPublication (take k (findingsOf e m w))"
    by blast
  have "map expectedPublication (take k (findingsOf e m w)) =
       map (\<lambda>f. if escalates (fseverity f)
                then (LLM_ALERTS, Some (ftype f), Some (fseverity f),
                      Some (if fseverity f = Critical then Urgent else HighPriority))
                else (LLM_ANOMALIES, Some (ftype f), Some (fseverity f), None))
           (take k (findingsOf e m w))"
    by (rule map_cong) (simp_all add: expectedPublication_def)
  with h(5) have p: "map published msgs =
       map (\<lambda>f. if escalates (fseverity f)
                then (LLM_ALERTS, Some (ftype f), Some (fseverity f),
                      Some (if fseverity f = Critical then Urgent else HighPriority))
                else (LLM_ANOMALIES, Some (ftype f), Some (fseverity f), None))
           (take k (findingsOf e m w))"
    by simp
  show ?thesis
    apply (rule exI [of _ k], rule exI [of _ pre], rule exI [of _ msgs])
    using h(1,2,3,4) p apply simp
    done
qed

theorem publication_of_findings_witness:
  "returned (fst (handleResponse workingEnv mixedResponse initialWorld)) \<and>
   sendFails workingEnv (sendCalls initialWorld) = None \<and>
   map fseverity (findingsOf workingEnv mixedResponse initialWorld) = [Medium, High] \<and>
   map msgTopic (kafka (snd (handleResponse workingEnv mixedResponse initialWorld))) =
     [LLM_RESPONSES, LLM_ANOMALIES, LLM_ALERTS] \<and>
   map published (tl (kafka (snd (handleResponse workingEnv mixedResponse initialWorld)))) =
     [(LLM_ANOMALIES, Some TOKEN_ANOMALY, Some Medium, None),
      (LLM_ALERTS, Some HALLUCINATION, Some High, Some HighPriority)]"
proof -
  let ?w' = "snd (handleResponse workingEnv mixedResponse initialWorld)"
  have r: "fst (handleResponse workingEnv mixedResponse initialWorld) = Inr 2"
    using handleResponse_returns [OF workingEnv_accepts, of mixedResponse initialWorld]
    by (simp add: findings_mixed)
  then have ret: "returned (fst (handleResponse workingEnv mixedResponse initialWorld))"
    by (simp add: returned_def)
  have run: "handleResponse workingEnv mixedResponse initialWorld
     = (fst (handleResponse workingEnv mixedResponse initialWorld), ?w')"
    by simp
  have init: "kafka initialWorld = []"
    by (simp add: initialWorld_def)
  have ok: "sendFails workingEnv (sendCalls initialWorld) = None"
    by (simp add: workingEnv_accepts)
  from publication_of_findings [OF run] obtain n pre msgs where
    kk: "returned (fst (handleResponse workingEnv mixedResponse initialWorld)) \<longrightarrow>
         n = length (findingsOf workingEnv mixedResponse initialWorld)"
    and k: "kafka ?w' = kafka initialWorld @ pre @ msgs"
    and pre': "map msgTopic pre =
       (if sendFails workingEnv (sendCalls initialWorld) = None then [LLM_RESPONSES] else [])"
    and p0: "map published msgs =
       map (\<lambda>f. if escalates (fseverity f)
                then (LLM_ALERTS, Some (ftype f), Some (fseverity f),
                      Some (if fseverity f = Critical then Urgent else HighPriority))
                else (LLM_ANOMALIES, Some (ftype f), Some (fseverity f), None))
           (take n (findingsOf workingEnv mixedResponse initialWorld))"
    by blast
  from kk ret have n: "n = 2"
    by (simp add: findings_mixed)
  from pre' ok have pre: "map msgTopic pre = [LLM_RESPONSES]"
    by simp
  from p0 n have p: "map published msgs =
       map (\<lambda>f. if escalates (fseverity f)
                then (LLM_ALERTS, Some (ftype f), Some (fseverity f),
                      Some (if fseverity f = Critical then Urgent else HighPriority))
                else (LLM_ANOMALIES, Some (ftype f), Some (fseverity f), None))
           (findingsOf workingEnv mixedResponse initialWorld)"
    by (simp add: findings_mixed)
  from pre obtain rm where rm: "pre = [rm]" "msgTopic rm = LLM_RESPONSES"
    by (cases pre) auto
  from p have p': "map published msgs =
     [(LLM_ANOMALIES, Some TOKEN_ANOMALY, Some Medium, None),
      (LLM_ALERTS, Some HALLUCINATION, Some High, Some HighPriority)]"
    by (simp add: findings_mixed tokenFinding_def hallucinationFinding_def escalates_def)
  have "map msgTopic msgs = map fst (map published msgs)"
    by (simp add: fst_published comp_def)
  with p' have t: "map msgTopic msgs = [LLM_ANOMALIES, LLM_ALERTS]"
    by simp
  from ret ok k init rm p' t show ?thesis
    by (simp add: findings_mixed tokenFinding_def hallucinationFinding_def)
qed

subsection \<open>The incident lifecycle\<close>

lemma neverReopened_refl: "neverReopened w w"
  by (simp add: neverReopened_def list_all_iff)

lemma neverReopened_trans:
  "neverReopened w1 w2 \<Longrightarrow> neverReopened w2 w3 \<Longrightarrow> neverReopened w1 w3"
  by (auto simp add: neverReopened_def list_all_iff)

text \<open>An operation that only appends open incidents keeps the invariant.\<close>

lemma appends_open:
  assumes "heap w' = heap w @ new"
    and "incidents w' = incidents w @ [length (heap w)..<length (heap w) + length new]"
    and "\<forall>i \<in> set new. status i = Open \<and> closedAt i = None"
    and "lifecycleInvariant w"
  shows "lifecycleInvariant w' \<and> neverReopened w w'"
  using assms by (auto simp add: lifecycleInvariant_def neverReopened_def list_all_iff nth_append)

lemma opened_expected:
  assumes "map opened new = map expectedIncident xs"
  shows "\<forall>i \<in> set new. status i = Open \<and> closedAt i = None"
proof
  fix i assume "i \<in> set new"
  then obtain k where k: "k < length new" "new ! k = i"
    by (auto simp add: in_set_conv_nth)
  from assms have len: "length new = length xs"
    by (rule map_eq_imp_length_eq)
  from assms have "map opened new ! k = map expectedIncident xs ! k" by simp
  with k len have "opened i = expectedIncident (xs ! k)" by simp
  then show "status i = Open \<and> closedAt i = None"
    by (simp add: opened_def expectedIncident_def)
qed

lemma step_handleRequest:
  "heap (snd (handleRequest e m w)) = heap w \<and> incidents (snd (handleRequest e m w)) = incidents w"
  by (cases "sendFails e (sendCalls w)")
     (simp_all add: handleRequest_def publishRequest_def effect_defs Let_def)

lemma step_handleResponse:
  assumes "lifecycleInvariant w"
  shows "lifecycleInvariant (snd (handleResponse e m w)) \<and> neverReopened w (snd (handleResponse e m w))"
proof (cases "sendFails e (sendCalls w)")
  case None
  obtain r w' where run: "handleResponse e m w = (r, w')" by (cases "handleResponse e m w")
  from handleResponse_accepted [OF None run] obtain k new where
    "heap w' = heap w @ new"
    "incidents w' = incidents w @ [length (heap w)..<length (heap w) + length new]"
    "map opened new =
       map expectedIncident (filter (\<lambda>f. escalates (fseverity f)) (take k (findingsOf e m w)))"
    by blast
  with appends_open [of w' w new] opened_expected assms run show ?thesis by auto
next
  case (Some msg)
  obtain r w' where run: "handleResponse e m w = (r, w')" by (cases "handleResponse e m w")
  from handleResponse_rejected [OF Some run] appends_open [of w' w "[]"] assms run
  show ?thesis by simp
qed

lemma step_publishAnomaly:
  assumes "lifecycleInvariant w"
  shows "lifecycleInvariant (snd (publishAnomaly e a w)) \<and> neverReopened w (snd (publishAnomaly e a w))"
proof -
  obtain r w' where run: "publishAnomaly e a w = (r, w')" by (cases "publishAnomaly e a w")
  have "\<exists>new. heap w' = heap w @ new \<and>
          incidents w' = incidents w @ [length (heap w)..<length (heap w) + length new] \<and>
          (\<forall>i \<in> set new. status i = Open \<and> closedAt i = None)"
  proof (cases r)
    case (Inl err)
    with publishAnomaly_effect [OF run] show ?thesis by (intro exI [of _ "[]"]) simp
  next
    case (Inr x)
    show ?thesis
    proof (cases "escalates (fseverity a)")
      case True
      with publishAnomaly_effect [OF run] Inr obtain inc where
        "heap w' = heap w @ [inc]" "opened inc = expectedIncident a"
        "incidents w' = incidents w @ [length (heap w)]" by auto
      then show ?thesis
        by (intro exI [of _ "[inc]"]) (simp add: opened_def expectedIncident_def)
    next
      case False
      with publishAnomaly_effect [OF run] Inr show ?thesis by (intro exI [of _ "[]"]) simp
    qed
  qed
  with appends_open [of w' w] assms run show ?thesis by auto
qed

lemma step_getRecentIncidents:
  assumes "lifecycleInvariant w"
  shows "lifecycleInvariant (snd (getRecentIncidents n w)) \<and> neverReopened w (snd (getRecentIncidents n w))"
  using assms
  by (simp add: getRecentIncidents_def Let_def lifecycleInvariant_def neverReopened_def list_all_iff)

lemma step_closeIncident:
  assumes "lifecycleInvariant w"
  shows "lifecycleInvariant (snd (closeIncident e i r w)) \<and> neverReopened w (snd (closeIncident e i r w))"
proof (cases "find (\<lambda>a. incidentId (heap w ! a) = i) (incidents w)")
  case None
  with assms show ?thesis by (simp add: closeIncident_def neverReopened_refl)
next
  case (Some a)
  define c where "c = (heap w ! a)\<lparr>status := Closed, resolution := r,
                closedAt := Some (clock e (clockCalls w))\<rparr>"
  from Some have "a \<in> set (incidents w)"
    by (auto simp add: find_Some_iff)
  with assms have a: "a < length (heap w)"
    by (simp add: lifecycleInvariant_def list_all_iff)
  have w': "snd (closeIncident e i r w) = w\<lparr>clockCalls := Suc (clockCalls w), heap := (heap w)[a := c]\<rparr>"
    using Some by (simp add: closeIncident_def newDate_def c_def)
  have c: "status c = Closed" "closedAt c \<noteq> None" "incidentId c = incidentId (heap w ! a)"
    by (simp_all add: c_def)
  have 1: "\<forall>x \<in> set ((heap w)[a := c]). (closedAt x \<noteq> None) = (status x = Closed)"
  proof
    fix x assume "x \<in> set ((heap w)[a := c])"
    then have "x = c \<or> x \<in> set (heap w)"
      using set_update_subset_insert [of "heap w" a c] by auto
    with c assms show "(closedAt x \<noteq> None) = (status x = Closed)"
      by (auto simp add: lifecycleInvariant_def list_all_iff)
  qed
  have 2: "\<forall>b < length (heap w). incidentId ((heap w)[a := c] ! b) = incidentId (heap w ! b) \<and>
              (status (heap w ! b) = Closed \<longrightarrow> status ((heap w)[a := c] ! b) = Closed)"
    using a c by (simp add: nth_list_update)
  show ?thesis
    using assms 1 2 unfolding w'
    by (simp add: lifecycleInvariant_def neverReopened_def list_all_iff)
qed

lemma step_invariant:
  "lifecycleInvariant w \<Longrightarrow> lifecycleInvariant (step e w op) \<and> neverReopened w (step e w op)"
  by (cases op)
     (simp_all add: step_handleResponse step_publishAnomaly step_getRecentIncidents
        step_closeIncident neverReopened_refl,
      simp add: lifecycleInvariant_def neverReopened_def list_all_iff step_handleRequest)

lemma run_invariant:
  "lifecycleInvariant w \<Longrightarrow> lifecycleInvariant (run e w ops) \<and> neverReopened w (run e w ops)"
proof (induction ops arbitrary: w)
  case Nil
  then show ?case by (simp add: run_def neverReopened_refl)
next
  case (Cons op ops)
  from step_invariant [OF Cons.prems, of e op]
  have 1: "lifecycleInvariant (step e w op)" and 2: "neverReopened w (step e w op)" by simp_all
  from Cons.IH [OF 1] have "lifecycleInvariant (run e (step e w op) ops)"
    and "neverReopened (step e w op) (run e (step e w op) ops)" by simp_all
  with 2 show ?case by (auto simp add: run_def intro: neverReopened_trans)
qed

lemma initial_invariant: "lifecycleInvariant initialWorld"
  by (simp add: lifecycleInvariant_def initialWorld_def)

text \<open>
  Claim C9.  After every sequence of calls of the exported operations, started from the
  empty state and whatever the transport does, every incident has \<open>closedAt\<close> set if and
  only if its status is closed; and over any further sequence of calls no incident is lost,
  changes its identifier or goes from closed back to open.
\<close>

theorem incident_lifecycle:
  "lifecycleInvariant (run e initialWorld ops) \<and>
   neverReopened (run e initialWorld ops) (run e (run e initialWorld ops) ops')"
  using run_invariant [OF initial_invariant, of e ops]
        run_invariant [of "run e initialWorld ops" e ops']
  by simp

lemmas op_defs = run_def handleRequest_def publishRequest_def closeIncident_def getRecentIncidents_def

theorem incident_lifecycle_witness:
  "lifecycleInvariant (run workingEnv initialWorld [HandleRequest exampleRequest, HandleResponse lowConfidenceResponse]) \<and>
   neverReopened (run workingEnv initialWorld [HandleRequest exampleRequest, HandleResponse lowConfidenceResponse])
     (run workingEnv (run workingEnv initialWorld [HandleRequest exampleRequest, HandleResponse lowConfidenceResponse])
        [CloseIncident ''id-x'' (Some ''fixed''), GetRecentIncidents 10]) \<and>
   map status (heap (run workingEnv initialWorld [HandleRequest exampleRequest, HandleResponse lowConfidenceResponse])) = [Open] \<and>
   map closedAt (heap (run workingEnv initialWorld [HandleRequest exampleRequest, HandleResponse lowConfidenceResponse])) = [None] \<and>
   map status (heap (run workingEnv (run workingEnv initialWorld [HandleRequest exampleRequest, HandleResponse lowConfidenceResponse])
        [CloseIncident ''id-x'' (Some ''fixed''), GetRecentIncidents 10])) = [Closed] \<and>
   map closedAt (heap (run workingEnv (run workingEnv initialWorld [HandleRequest exampleRequest, HandleResponse lowConfidenceResponse])
        [CloseIncident ''id-x'' (Some ''fixed''), GetRecentIncidents 10])) = [Some 361000]"
proof -
  have ev: "map status (heap (run workingEnv initialWorld [HandleRequest exampleRequest, HandleResponse lowConfidenceResponse])) = [Open] \<and>
   map closedAt (heap (run workingEnv initialWorld [HandleRequest exampleRequest, HandleResponse lowConfidenceResponse])) = [None] \<and>
   map status (heap (run workingEnv (run workingEnv initialWorld [HandleRequest exampleRequest, HandleResponse lowConfidenceResponse])
        [CloseIncident ''id-x'' (Some ''fixed''), GetRecentIncidents 10])) = [Closed] \<and>
   map closedAt (heap (run workingEnv (run workingEnv initialWorld [HandleRequest exampleRequest, HandleResponse lowConfidenceResponse])
        [CloseIncident ''id-x'' (Some ''fixed''), GetRecentIncidents 10])) = [Some 361000]"
    by (simp add: op_defs run_defs initialWorld_def workingEnv_def
      analysisPayload_lowConfidence analyze_lowConfidence hallucinationFinding_def)
  with incident_lifecycle [of workingEnv "[HandleRequest exampleRequest, HandleResponse lowConfidenceResponse]"
        "[CloseIncident ''id-x'' (Some ''fixed''), GetRecentIncidents 10]"]
  show ?thesis by simp
qed

subsection \<open>The baseline of a recorded response\<close>

lemma latencies_append:
  "latencies (rs @ [p]) = latencies rs @ (if truthyNum (rs_latencyMs p) then [orElse (rs_latencyMs p) 0] else [])"
  by (simp add: latencies_def)

lemma classified_fields:
  "latencyMs (classified e m w) = latencyMs m"
  "avgLatencyMs (classified e m w) =
     Some (if latencies (responses w @ [recordedResponse e m w]) = [] then 0
           else sum_list (latencies (responses w @ [recordedResponse e m w]))
                  / of_nat (length (latencies (responses w @ [recordedResponse e m w]))))"
  by (simp_all add: classified_def analysisPayload_def getAverageMetrics_def)

lemma recordedResponse_latency: "rs_latencyMs (recordedResponse e m w) = latencyMs m"
  by (simp add: recordedResponse_def responsePayloadOf_def)

lemma first_response_baseline:
  "responses w = [] \<Longrightarrow> avgLatencyMs (classified e m w) = Some (orElse (latencyMs m) 0)"
  by (cases "latencyMs m")
     (simp_all add: classified_fields latencies_def recordedResponse_latency truthyNum_def orElse_def)

lemma first_response_latency_findings:
  assumes "responses w = []"
  shows "map fdescription (filter (\<lambda>f. ftype f = PERFORMANCE_DEGRADATION) (findingsOf e m w)) =
           (case latencyMs m of
              None \<Rightarrow> []
            | Some l \<Rightarrow> if l > 30000 then [Reason (Some RequestTimeout)] else [])"
  using first_response_baseline [OF assms, of e m]
  by (cases "latencyMs m")
     (simp_all add: findingsOf_def latency_findings latencyAnomaly_def classified_fields(1)
        analyzeLatencyAnomaly_def orElse_def Let_def)

lemma analyze_plain_100:
  "analyzeMessage ((plainResponse 100)\<lparr>avgLatencyMs := Some 100\<rparr>) freshRegExps = ([], freshRegExps)"
  by code_simp

lemma analyze_plain_0:
  "analyzeMessage ((plainResponse 0)\<lparr>avgLatencyMs := Some 100\<rparr>) freshRegExps = ([], freshRegExps)"
  by code_simp

lemma plainResponse_latency: "latencyMs (plainResponse l) = Some l"
  by (simp add: plainResponse_def emptyMessage_def)

lemma oneResponseWorld_state:
  "responses oneResponseWorld = [recordedResponse workingEnv (plainResponse 100) initialWorld] \<and>
   regExps oneResponseWorld = freshRegExps"
proof -
  let ?w' = "snd (handleResponse workingEnv (plainResponse 100) initialWorld)"
  have "fst (handleResponse workingEnv (plainResponse 100) initialWorld)
          = Inr (length (findingsOf workingEnv (plainResponse 100) initialWorld))"
    by (rule handleResponse_returns [OF workingEnv_accepts])
  then have run: "handleResponse workingEnv (plainResponse 100) initialWorld
          = (Inr (length (findingsOf workingEnv (plainResponse 100) initialWorld)), ?w')"
    by (simp add: prod_eq_iff)
  from handleResponse_recorded [OF run] show ?thesis
    by (auto simp add: oneResponseWorld_def initialWorld_def analyzeMessage_fresh)
qed

lemma classified_zero:
  "classified workingEnv (plainResponse 0) oneResponseWorld = (plainResponse 0)\<lparr>avgLatencyMs := Some 100\<rparr>"
  by (simp add: classified_def analysisPayload_def getAverageMetrics_def latencies_def
      oneResponseWorld_state recordedResponse_latency plainResponse_latency truthyNum_def orElse_def)

text \<open>
  Claim C10, as stated, fails for a latency of zero: after one response of 100 ms, a response
  with \<^verbatim>\<open>latencyMs: 0\<close> is appended and then classified against a baseline of 100, the
  average of the earlier response alone.  The filter \<^verbatim>\<open>r => r.latencyMs\<close> leaves a latency
  of 0 out of the average; the mean of 100 and 0 would be 50.
\<close>

theorem zero_latency_left_out_of_baseline:
  "map rs_latencyMs (responses oneResponseWorld) = [Some 100] \<and>
   latencyMs (plainResponse 0) = Some 0 \<and>
   fst (handleResponse workingEnv (plainResponse 0) oneResponseWorld) = Inr 0 \<and>
   map rs_latencyMs (responses (snd (handleResponse workingEnv (plainResponse 0) oneResponseWorld)))
     = [Some 100, Some 0] \<and>
   avgLatencyMs (classified workingEnv (plainResponse 0) oneResponseWorld) = Some 100"
proof -
  let ?w' = "snd (handleResponse workingEnv (plainResponse 0) oneResponseWorld)"
  have f: "findingsOf workingEnv (plainResponse 0) oneResponseWorld = []"
    by (simp add: findingsOf_def classified_zero oneResponseWorld_state analyze_plain_0)
  have r: "fst (handleResponse workingEnv (plainResponse 0) oneResponseWorld) = Inr 0"
    using handleResponse_returns [OF workingEnv_accepts, of "plainResponse 0" oneResponseWorld] f
    by simp
  then have run: "handleResponse workingEnv (plainResponse 0) oneResponseWorld = (Inr 0, ?w')"
    by (simp add: prod_eq_iff)
  from handleResponse_recorded [OF run]
  have "responses ?w' = responses oneResponseWorld @ [recordedResponse workingEnv (plainResponse 0) oneResponseWorld]"
    by blast
  with r show ?thesis
    by (simp add: oneResponseWorld_state recordedResponse_latency plainResponse_latency classified_zero)
qed

text \<open>
  Claim C10, amended.  \<^verbatim>\<open>handleResponse\<close> appends the incoming response to the retained
  responses before it computes the baseline: the baseline average latency handed to the
  classifier is the mean of the defined, non-zero latencies of the retained responses, the
  incoming one included, so it includes the response's own latency whenever that latency is
  defined and not zero.  The first recorded response is compared against a baseline equal to
  its own latency (0 when it has none) and never yields a relative-increase latency finding:
  its only possible latency finding is the absolute timeout above 30000 ms.
\<close>

theorem baseline_includes_own_latency:
  assumes "handleResponse e m w = (Inr n, w')"
  shows "responses w' = responses w @ [recordedResponse e m w] \<and>
     rs_latencyMs (recordedResponse e m w) = latencyMs m \<and>
     n = length (fst (analyzeMessage (classified e m w) (regExps w))) \<and>
     avgLatencyMs (classified e m w) =
       Some (if latencies (responses w') = [] then 0
             else sum_list (latencies (responses w')) / of_nat (length (latencies (responses w')))) \<and>
     (truthyNum (latencyMs m) \<longrightarrow>
        latencies (responses w') = latencies (responses w) @ [orElse (latencyMs m) 0]) \<and>
     (responses w = [] \<longrightarrow>
        avgLatencyMs (classified e m w) = Some (orElse (latencyMs m) 0) \<and>
        map fdescription (filter (\<lambda>f. ftype f = PERFORMANCE_DEGRADATION) (findingsOf e m w)) =
           (case latencyMs m of
              None \<Rightarrow> []
            | Some l \<Rightarrow> if l > 30000 then [Reason (Some RequestTimeout)] else []))"
proof -
  from handleResponse_recorded [OF assms] have
    r: "responses w' = responses w @ [recordedResponse e m w]"
    and n: "n = length (findingsOf e m w)"
    by blast+
  show ?thesis
    using r n first_response_baseline [of w e m] first_response_latency_findings [of w e m]
    by (simp add: classified_fields recordedResponse_latency latencies_append findingsOf_def)
qed

theorem baseline_includes_own_latency_witness:
  "handleResponse workingEnv lowConfidenceResponse initialWorld
     = (Inr 1, snd (handleResponse workingEnv lowConfidenceResponse initialWorld)) \<and>
   truthyNum (latencyMs lowConfidenceResponse) \<and> responses initialWorld = [] \<and>
   latencies (responses (snd (handleResponse workingEnv lowConfidenceResponse initialWorld))) = [500] \<and>
   avgLatencyMs (classified workingEnv lowConfidenceResponse initialWorld) = Some 500 \<and>
   map fdescription (filter (\<lambda>f. ftype f = PERFORMANCE_DEGRADATION)
      (findingsOf workingEnv lowConfidenceResponse initialWorld)) = []"
proof -
  have run: "handleResponse workingEnv lowConfidenceResponse initialWorld
     = (Inr 1, snd (handleResponse workingEnv lowConfidenceResponse initialWorld))"
    using handleResponse_returns [OF workingEnv_accepts, of lowConfidenceResponse initialWorld]
    by (simp add: findings_lowConfidence prod_eq_iff)
  have l: "latencyMs lowConfidenceResponse = Some 500"
    by (simp add: lowConfidenceResponse_def emptyMessage_def)
  have init: "responses initialWorld = []" "latencies [] = []"
    by (simp_all add: initialWorld_def latencies_def)
  have tr: "truthyNum (latencyMs lowConfidenceResponse)"
    by (simp add: l truthyNum_def)
  note t = baseline_includes_own_latency [OF run]
  from t [THEN conjunct2, THEN conjunct2, THEN conjunct2, THEN conjunct2, THEN conjunct1] tr
  have 1: "latencies (responses (snd (handleResponse workingEnv lowConfidenceResponse initialWorld)))
             = [500]"
    by (simp add: init l orElse_def)
  from t [THEN conjunct2, THEN conjunct2, THEN conjunct2, THEN conjunct2, THEN conjunct2] init(1)
  have 2: "avgLatencyMs (classified workingEnv lowConfidenceResponse initialWorld) = Some 500 \<and>
   map fdescription (filter (\<lambda>f. ftype f = PERFORMANCE_DEGRADATION)
      (findingsOf workingEnv lowConfidenceResponse initialWorld)) = []"
    by (simp add: l orElse_def)
  from run tr init(1) 1 2 show ?thesis by simp
qed

end
